theory Spec2Isabelle
  imports Complex_Main
begin

unbundle bit_operations_syntax

section \<open>JavaScript values used by the renderer core\<close>

text \<open>
  Numbers. A JavaScript number is an IEEE-754 double. Where the program computes with
  integers and the 53-bit significand matters (the seed hash) the rounding is written
  out on \<open>int\<close>. Everywhere else (times, offsets, densities, frame rates) a finite
  number is a \<open>real\<close>; there the infinities are outside the model, and NaN appears
  only where \<open>parseInt\<close> finds no digit, as \<open>None\<close>. The frame rate, which a caller
  sets to any number, is a \<open>number\<close> with NaN and both infinities.

  Strings. A JavaScript string is a sequence of UTF-16 code units, here a list of
  naturals; \<open>js\<close> writes an ASCII literal.
\<close>

type_synonym jsstring = "nat list"

definition js :: "string \<Rightarrow> jsstring" where
  "js s = map of_char s"

text \<open>\<open>ToInt32\<close> of an integral number: reduce modulo \<open>2^32\<close>, read as two's complement.\<close>

definition toInt32 :: "int \<Rightarrow> int" where
  "toInt32 n = (let m = n mod 2 ^ 32 in if m \<ge> 2 ^ 31 then m - 2 ^ 32 else m)"

text \<open>
  The double nearest to an integer (round to nearest, ties to even, 53 significant
  bits): what \<open>a * b\<close> yields for two integral doubles whose exact product is \<open>n\<close>.
\<close>

function bitLength :: "int \<Rightarrow> nat" where
  "bitLength a = (if a \<le> 0 then 0 else Suc (bitLength (a div 2)))"
  by pat_completeness auto
termination
  by (relation "measure nat") auto

definition roundDouble :: "int \<Rightarrow> int" where
  "roundDouble n =
     (let a = \<bar>n\<bar>;
          e = bitLength a - 53;
          q = a div 2 ^ e;
          r = a mod 2 ^ e;
          q' = (if 2 * r > 2 ^ e \<or> (2 * r = 2 ^ e \<and> odd q) then q + 1 else q)
      in sgn n * (q' * 2 ^ e))"

section \<open>SeedManager: seedFromText, deriveSeed\<close>

text \<open>
  One round of the loop body of \<open>seedFromText\<close>:
  \<^verbatim>\<open>hash ^= text.charCodeAt(i); hash = (hash * 0x01000193) | 0;\<close>
  The XOR converts both operands with ToInt32; the product is a double product, rounded
  before \<open>| 0\<close> truncates it to 32 bits.
\<close>

definition hashRound :: "int \<Rightarrow> nat \<Rightarrow> int" where
  "hashRound hash c =
     (let h1 = toInt32 hash XOR toInt32 (int c)
      in toInt32 (roundDouble (h1 * 0x01000193)))"

definition seedFromText :: "jsstring \<Rightarrow> int" where
  "seedFromText text = \<bar>fold (\<lambda>c hash. hashRound hash c) text 0x811c9dc5\<bar>"

text \<open>\<open>Math.imul\<close> is the exact 32-bit wrapping product.\<close>

definition imul :: "int \<Rightarrow> int \<Rightarrow> int" where
  "imul a b = toInt32 (toInt32 a * toInt32 b)"

definition deriveSeed :: "int \<Rightarrow> int \<Rightarrow> int" where
  "deriveSeed baseSeed idx =
     \<bar>imul (toInt32 baseSeed XOR toInt32 (roundDouble (idx * 2654435761))) 0x01000193\<bar>"

text \<open>
  The hash as the specification words it: 32-bit FNV-1a over the character codes, each
  round an XOR followed by a wrapping 32-bit multiply by the FNV prime, the absolute
  value of the (signed) result returned.
\<close>

definition fnv1aRound_spec :: "int \<Rightarrow> nat \<Rightarrow> int" where
  "fnv1aRound_spec hash c = toInt32 ((toInt32 hash XOR toInt32 (int c)) * 0x01000193)"

definition seedFromText_spec :: "jsstring \<Rightarrow> int" where
  "seedFromText_spec text = \<bar>toInt32 (fold (\<lambda>c hash. fnv1aRound_spec hash c) text 0x811c9dc5)\<bar>"

section \<open>AnimationLoop\<close>

datatype AnimationState = Running | Paused | Stopped

text \<open>
  A number that may be NaN or infinite, with \<open>Math.min\<close> and \<open>Math.max\<close> of two
  arguments: NaN if either argument is NaN, else the smaller or the larger.
\<close>

datatype number = NaN | NegInfinity | Finite real | PosInfinity

fun mathMin :: "number \<Rightarrow> number \<Rightarrow> number" where
  "mathMin NaN b = NaN"
| "mathMin a NaN = NaN"
| "mathMin NegInfinity b = NegInfinity"
| "mathMin a NegInfinity = NegInfinity"
| "mathMin PosInfinity b = b"
| "mathMin a PosInfinity = a"
| "mathMin (Finite a) (Finite b) = Finite (min a b)"

fun mathMax :: "number \<Rightarrow> number \<Rightarrow> number" where
  "mathMax NaN b = NaN"
| "mathMax a NaN = NaN"
| "mathMax PosInfinity b = PosInfinity"
| "mathMax a PosInfinity = PosInfinity"
| "mathMax NegInfinity b = b"
| "mathMax a NegInfinity = a"
| "mathMax (Finite a) (Finite b) = Finite (max a b)"

record AnimationLoop =
  elapsedTime :: real
  state :: AnimationState
  fps :: number

text \<open>\<^verbatim>\<open>constructor(fps = 13) { this.fps = fps; }\<close>: the argument is stored as it is.\<close>

definition AnimationLoop_new :: "number option \<Rightarrow> AnimationLoop" where
  "AnimationLoop_new arg =
     \<lparr>elapsedTime = 0, state = Stopped,
      fps = (case arg of None \<Rightarrow> Finite 13 | Some f \<Rightarrow> f)\<rparr>"

text \<open>\<open>tick\<close> returns \<open>None\<close> for JavaScript's \<open>null\<close>, together with the loop after the call.\<close>

definition tick :: "AnimationLoop \<Rightarrow> real \<Rightarrow> real option \<times> AnimationLoop" where
  "tick l deltaTimeMs =
     (if state l \<noteq> Running then (None, l)
      else let deltaSeconds = deltaTimeMs / 1000;
               l' = l\<lparr>elapsedTime := elapsedTime l + deltaSeconds\<rparr>
           in (Some (elapsedTime l'), l'))"

definition start :: "AnimationLoop \<Rightarrow> AnimationLoop" where
  "start l = l\<lparr>state := Running\<rparr>"

definition pause :: "AnimationLoop \<Rightarrow> AnimationLoop" where
  "pause l = (if state l = Running then l\<lparr>state := Paused\<rparr> else l)"

definition resume :: "AnimationLoop \<Rightarrow> AnimationLoop" where
  "resume l = (if state l = Paused then l\<lparr>state := Running\<rparr> else l)"

definition togglePause :: "AnimationLoop \<Rightarrow> AnimationLoop" where
  "togglePause l =
     (if state l = Running then pause l
      else if state l = Paused then resume l
      else l)"

definition stop :: "AnimationLoop \<Rightarrow> AnimationLoop" where
  "stop l = l\<lparr>state := Stopped, elapsedTime := 0\<rparr>"

definition reset :: "AnimationLoop \<Rightarrow> AnimationLoop" where
  "reset l = l\<lparr>elapsedTime := 0\<rparr>"

definition getState :: "AnimationLoop \<Rightarrow> AnimationState" where
  "getState l = state l"

definition getElapsedTime :: "AnimationLoop \<Rightarrow> real" where
  "getElapsedTime l = elapsedTime l"

definition getFps :: "AnimationLoop \<Rightarrow> number" where
  "getFps l = fps l"

text \<open>\<^verbatim>\<open>this.fps = Math.max(1, Math.min(60, fps));\<close>\<close>

definition setFps :: "AnimationLoop \<Rightarrow> number \<Rightarrow> AnimationLoop" where
  "setFps l f = l\<lparr>fps := mathMax (Finite 1) (mathMin (Finite 60) f)\<rparr>"

text \<open>
  The \<open>Tempo\<close> enum and its string values; \<open>fpsFromTempo\<close> takes \<open>Tempo | string\<close> and
  looks the string up in its table, with \<open>1.0\<close> for a key the table lacks.
  \<open>Math.round\<close> rounds half up, as \<open>round\<close> does.
\<close>

datatype Tempo = Tempo_Frozen | Tempo_Slow | Tempo_Medium | Tempo_Fast | Tempo_Frantic

fun Tempo_value :: "Tempo \<Rightarrow> string" where
  "Tempo_value Tempo_Frozen = ''frozen''"
| "Tempo_value Tempo_Slow = ''slow''"
| "Tempo_value Tempo_Medium = ''medium''"
| "Tempo_value Tempo_Fast = ''fast''"
| "Tempo_value Tempo_Frantic = ''frantic''"

definition multipliers :: "(string \<times> real) list" where
  "multipliers =
     [(Tempo_value Tempo_Frozen, 0.3),
      (Tempo_value Tempo_Slow, 0.6),
      (Tempo_value Tempo_Medium, 1.0),
      (Tempo_value Tempo_Fast, 1.5),
      (Tempo_value Tempo_Frantic, 2.2)]"

definition fpsFromTempo :: "string \<Rightarrow> real \<Rightarrow> int" where
  "fpsFromTempo tempoKey baseFps =
     (let mult = (case map_of multipliers tempoKey of Some m \<Rightarrow> m | None \<Rightarrow> 1.0)
      in round (baseFps * mult))"

text \<open>A caller's use of the playback surface, one constructor per method.\<close>

datatype LoopCall =
  Tick real | Start | Pause | Resume | TogglePause | Stop | Reset | SetFps number

fun call :: "LoopCall \<Rightarrow> AnimationLoop \<Rightarrow> AnimationLoop" where
  "call (Tick d) l = snd (tick l d)"
| "call Start l = start l"
| "call Pause l = pause l"
| "call Resume l = resume l"
| "call TogglePause l = togglePause l"
| "call Stop l = stop l"
| "call Reset l = reset l"
| "call (SetFps f) l = setFps l f"

definition calls :: "LoopCall list \<Rightarrow> AnimationLoop \<Rightarrow> AnimationLoop" where
  "calls cs l = fold call cs l"

section \<open>Grid\<close>

text \<open>
  A JavaScript array as the list of its slots: \<open>None\<close> is an empty slot, which reads as
  \<open>undefined\<close>. Reading past the end yields \<open>undefined\<close> too; writing past the end
  extends the array, leaving empty slots between. A negative key is no array index:
  writing to it leaves every slot as it is.
\<close>

type_synonym 'a jsarray = "'a option list"

definition arrayGet :: "'a jsarray \<Rightarrow> int \<Rightarrow> 'a option" where
  "arrayGet xs i = (if 0 \<le> i \<and> i < int (length xs) then xs ! nat i else None)"

definition arraySet :: "'a jsarray \<Rightarrow> int \<Rightarrow> 'a \<Rightarrow> 'a jsarray" where
  "arraySet xs i v =
     (if i < 0 then xs
      else if i < int (length xs) then xs[nat i := Some v]
      else xs @ replicate (nat i - length xs) None @ [Some v])"

definition arrayFill :: "'a jsarray \<Rightarrow> 'a \<Rightarrow> 'a jsarray" where
  "arrayFill xs v = map (\<lambda>_. Some v) xs"

text \<open>A dense array (built by a literal, \<open>push\<close>, \<open>map\<close> or spread) read by index.\<close>

definition listGet :: "'a list \<Rightarrow> int \<Rightarrow> 'a option" where
  "listGet xs i = (if 0 \<le> i \<and> i < int (length xs) then Some (xs ! nat i) else None)"

record Cell =
  char :: jsstring
  fg :: jsstring
  bg :: jsstring

record Grid =
  width :: int
  height :: int
  cells :: "jsstring jsarray"
  fgColors :: "jsstring jsarray"
  bgColors :: "jsstring jsarray"

datatype jserror = RangeError

text \<open>
  \<open>new Grid(width, height)\<close>: \<open>new Array(size)\<close> throws a RangeError unless the size is
  an array length (an integer from \<open>0\<close> to \<open>2^32 - 1\<close>); the dimensions are integers here.
\<close>

definition Grid_new :: "int \<Rightarrow> int \<Rightarrow> jserror + Grid" where
  "Grid_new w h =
     (let size = w * h in
      if size < 0 \<or> size > 2 ^ 32 - 1 then Inl RangeError
      else Inr \<lparr>width = w, height = h,
                cells = replicate (nat size) (Some (js '' '')),
                fgColors = replicate (nat size) (Some (js ''#888888'')),
                bgColors = replicate (nat size) (Some (js ''#000000''))\<rparr>)"

definition index :: "Grid \<Rightarrow> int \<Rightarrow> int \<Rightarrow> int" where
  "index g x y = y * width g + x"

definition inBounds :: "Grid \<Rightarrow> int \<Rightarrow> int \<Rightarrow> bool" where
  "inBounds g x y = (x \<ge> 0 \<and> x < width g \<and> y \<ge> 0 \<and> y < height g)"

text \<open>
  Coordinates are integers, as the loop counters and the \<open>Math.floor\<close> and
  \<open>Math.round\<close> results are that every caller passes.

  \<open>setCell(x, y, char, fg?, bg?)\<close>. An omitted colour is \<open>None\<close>; \<open>if (fg)\<close> holds for
  a string that is present and not empty.
\<close>

definition truthy :: "jsstring option \<Rightarrow> bool" where
  "truthy s = (case s of None \<Rightarrow> False | Some v \<Rightarrow> v \<noteq> [])"

definition setCell ::
  "Grid \<Rightarrow> int \<Rightarrow> int \<Rightarrow> jsstring \<Rightarrow> jsstring option \<Rightarrow> jsstring option \<Rightarrow> Grid" where
  "setCell g x y ch fgArg bgArg =
     (if \<not> inBounds g x y then g
      else let i = index g x y;
               g1 = g\<lparr>cells := arraySet (cells g) i ch\<rparr>;
               g2 = (if truthy fgArg then g1\<lparr>fgColors := arraySet (fgColors g1) i (the fgArg)\<rparr> else g1);
               g3 = (if truthy bgArg then g2\<lparr>bgColors := arraySet (bgColors g2) i (the bgArg)\<rparr> else g2)
           in g3)"

definition getCell :: "Grid \<Rightarrow> int \<Rightarrow> int \<Rightarrow> Cell" where
  "getCell g x y =
     (if \<not> inBounds g x y then \<lparr>char = js '' '', fg = js ''#888888'', bg = js ''#000000''\<rparr>
      else let i = index g x y in
        \<lparr>char = (case arrayGet (cells g) i of Some c \<Rightarrow> c | None \<Rightarrow> js '' ''),
         fg = (case arrayGet (fgColors g) i of Some c \<Rightarrow> c | None \<Rightarrow> js ''#888888''),
         bg = (case arrayGet (bgColors g) i of Some c \<Rightarrow> c | None \<Rightarrow> js ''#000000'')\<rparr>)"

text \<open>\<open>clear(char = " ", fg = "#888888", bg = "#000000")\<close>: an omitted argument takes its default.\<close>

definition clear ::
  "Grid \<Rightarrow> jsstring option \<Rightarrow> jsstring option \<Rightarrow> jsstring option \<Rightarrow> Grid" where
  "clear g chArg fgArg bgArg =
     g\<lparr>cells := arrayFill (cells g) (case chArg of None \<Rightarrow> js '' '' | Some c \<Rightarrow> c),
       fgColors := arrayFill (fgColors g) (case fgArg of None \<Rightarrow> js ''#888888'' | Some c \<Rightarrow> c),
       bgColors := arrayFill (bgColors g) (case bgArg of None \<Rightarrow> js ''#000000'' | Some c \<Rightarrow> c)\<rparr>"

text \<open>The two loops of \<open>fillRect\<close> run over \<open>y0 \<le> y < y0 + h\<close> and \<open>x0 \<le> x < x0 + w\<close>.\<close>

definition fillRect ::
  "Grid \<Rightarrow> int \<Rightarrow> int \<Rightarrow> int \<Rightarrow> int \<Rightarrow> jsstring \<Rightarrow> jsstring option \<Rightarrow> jsstring option \<Rightarrow> Grid" where
  "fillRect g x0 y0 w h ch fgArg bgArg =
     fold (\<lambda>y g'. fold (\<lambda>x g''. setCell g'' x y ch fgArg bgArg) [x0..x0 + w - 1] g')
       [y0..y0 + h - 1] g"

text \<open>
  The invariant of a constructed grid: the three arrays have \<open>width * height\<close> slots.
  The fields are private, so a grid changes only through the methods above.
\<close>

definition wellFormed :: "Grid \<Rightarrow> bool" where
  "wellFormed g =
     (0 \<le> width g * height g \<and>
      length (cells g) = nat (width g * height g) \<and>
      length (fgColors g) = nat (width g * height g) \<and>
      length (bgColors g) = nat (width g * height g))"

text \<open>No stored colour is the empty string (an empty slot reads as the default colour).\<close>

definition coloured :: "Grid \<Rightarrow> bool" where
  "coloured g = (Some [] \<notin> set (fgColors g) \<and> Some [] \<notin> set (bgColors g))"

section \<open>DreamSpec and its enums\<close>

datatype Motion =
  Motion_Falling | Motion_Rising | Motion_Drifting | Motion_Spinning | Motion_Pulsing
  | Motion_Expanding | Motion_Contracting | Motion_Flowing | Motion_Static | Motion_Chaotic

datatype Distortion =
  Distortion_None | Distortion_Low | Distortion_Medium | Distortion_High | Distortion_Extreme

datatype Mood =
  Mood_Surreal | Mood_Calm | Mood_Anxious | Mood_Ethereal | Mood_Dark | Mood_Whimsical
  | Mood_Melancholic | Mood_Euphoric | Mood_Eerie | Mood_Nostalgic

fun Distortion_value :: "Distortion \<Rightarrow> string" where
  "Distortion_value Distortion_None = ''none''"
| "Distortion_value Distortion_Low = ''low''"
| "Distortion_value Distortion_Medium = ''medium''"
| "Distortion_value Distortion_High = ''high''"
| "Distortion_value Distortion_Extreme = ''extreme''"

fun Mood_value :: "Mood \<Rightarrow> string" where
  "Mood_value Mood_Surreal = ''surreal''"
| "Mood_value Mood_Calm = ''calm''"
| "Mood_value Mood_Anxious = ''anxious''"
| "Mood_value Mood_Ethereal = ''ethereal''"
| "Mood_value Mood_Dark = ''dark''"
| "Mood_value Mood_Whimsical = ''whimsical''"
| "Mood_value Mood_Melancholic = ''melancholic''"
| "Mood_value Mood_Euphoric = ''euphoric''"
| "Mood_value Mood_Eerie = ''eerie''"
| "Mood_value Mood_Nostalgic = ''nostalgic''"

record DreamSpec =
  asciiArt :: "jsstring list"
  colorPalette :: "jsstring list"
  dominantElements :: "jsstring list"
  motion :: Motion
  distortion :: Distortion
  tempo :: Tempo
  density :: real
  mood :: Mood

section \<open>Strings and number formatting\<close>

text \<open>
  \<open>[...line]\<close> iterates a string by code points: a high surrogate followed by a low
  surrogate is one element, every other code unit is an element of its own.
\<close>

fun spread :: "jsstring \<Rightarrow> jsstring list" where
  "spread (a # b # rest) =
     (if 0xD800 \<le> a \<and> a \<le> 0xDBFF \<and> 0xDC00 \<le> b \<and> b \<le> 0xDFFF
      then [a, b] # spread rest
      else [a] # spread (b # rest))"
| "spread [a] = [[a]]"
| "spread [] = []"

text \<open>\<open>s.slice(a, b)\<close> for constants \<open>0 \<le> a \<le> b\<close>.\<close>

definition slice :: "jsstring \<Rightarrow> nat \<Rightarrow> nat \<Rightarrow> jsstring" where
  "slice s a b = take (b - a) (drop a s)"

text \<open>
  \<open>Number.parseInt(s, 16)\<close>: leading white space is skipped, a sign is read, a prefix
  \<open>0x\<close> or \<open>0X\<close> is dropped, and the longest run of hexadecimal digits is the value;
  there being no digit, the result is NaN, here \<open>None\<close>.
\<close>

definition isWhiteSpace :: "nat \<Rightarrow> bool" where
  "isWhiteSpace c =
     (c \<in> set [9, 10, 11, 12, 13, 32, 160, 5760, 8232, 8233, 8239, 8287, 12288, 65279]
      \<or> (8192 \<le> c \<and> c \<le> 8202))"

definition hexDigit :: "nat \<Rightarrow> int option" where
  "hexDigit c =
     (if 48 \<le> c \<and> c \<le> 57 then Some (int c - 48)
      else if 97 \<le> c \<and> c \<le> 102 then Some (int c - 87)
      else if 65 \<le> c \<and> c \<le> 70 then Some (int c - 55)
      else None)"

definition parseHex :: "jsstring \<Rightarrow> int option" where
  "parseHex s =
     (let s1 = dropWhile isWhiteSpace s;
          negative = (case s1 of c # _ \<Rightarrow> c = 45 | [] \<Rightarrow> False);
          s2 = (case s1 of c # rest \<Rightarrow> if c = 43 \<or> c = 45 then rest else s1 | [] \<Rightarrow> s1);
          s3 = (case s2 of a # b # rest \<Rightarrow> if a = 48 \<and> (b = 120 \<or> b = 88) then rest else s2
                | _ \<Rightarrow> s2);
          digits = takeWhile (\<lambda>c. hexDigit c \<noteq> None) s3
      in if digits = [] then None
         else Some ((if negative then - 1 else 1)
                    * fold (\<lambda>c n. n * 16 + the (hexDigit c)) digits 0))"

text \<open>\<open>n.toString(16)\<close> for an integer or NaN, and \<open>padStart(2, "0")\<close>.\<close>

definition digitChar :: "int \<Rightarrow> nat" where
  "digitChar d = (if d < 10 then nat (48 + d) else nat (87 + d))"

function hexDigits :: "int \<Rightarrow> jsstring" where
  "hexDigits n = (if n < 16 then [digitChar n] else hexDigits (n div 16) @ [digitChar (n mod 16)])"
  by pat_completeness auto
termination
  by (relation "measure nat") auto

definition toString16 :: "int option \<Rightarrow> jsstring" where
  "toString16 v =
     (case v of None \<Rightarrow> js ''NaN''
      | Some n \<Rightarrow> if n < 0 then 45 # hexDigits (- n) else hexDigits n)"

definition padStart2 :: "jsstring \<Rightarrow> jsstring" where
  "padStart2 s = replicate (2 - length s) 48 @ s"

section \<open>AsciiArtLayer\<close>

definition MOOD_PALETTES :: "(string \<times> jsstring list) list" where
  "MOOD_PALETTES =
     [(''surreal'', map js [''#cc44ff'', ''#ff44cc'', ''#44ccff'', ''#ffcc44'', ''#8844ff'']),
      (''calm'', map js [''#4488cc'', ''#66aadd'', ''#88bbee'', ''#aaccee'', ''#88ccaa'']),
      (''anxious'', map js [''#ff4444'', ''#ff6644'', ''#ffaa33'', ''#ff2222'', ''#cc2222'']),
      (''ethereal'', map js [''#aabbff'', ''#ccddff'', ''#eeeeff'', ''#bbccff'', ''#99aaee'']),
      (''dark'', map js [''#443355'', ''#332244'', ''#554466'', ''#221133'', ''#665577'']),
      (''whimsical'', map js [''#ff88cc'', ''#88ffcc'', ''#ccff88'', ''#ffcc88'', ''#88ccff'']),
      (''melancholic'', map js [''#4455aa'', ''#5566bb'', ''#334499'', ''#6677cc'', ''#223388'']),
      (''euphoric'', map js [''#ffdd44'', ''#ffee66'', ''#ffcc22'', ''#ffaa00'', ''#ffff88'']),
      (''eerie'', map js [''#22ff88'', ''#44cc66'', ''#11aa55'', ''#33dd77'', ''#00ff66'']),
      (''nostalgic'', map js [''#cc9966'', ''#ddaa77'', ''#bb8855'', ''#eebb88'', ''#aa7744''])]"

definition DEFAULT_PALETTE :: "jsstring list" where
  "DEFAULT_PALETTE = map js [''#8888cc'', ''#aa88cc'', ''#88aacc'', ''#cc88aa'', ''#88ccaa'']"

record Offset =
  dx :: real
  dy :: real

definition getPalette :: "DreamSpec \<Rightarrow> jsstring list" where
  "getPalette spec =
     (if length (colorPalette spec) > 0 then colorPalette spec
      else (case map_of MOOD_PALETTES (Mood_value (mood spec)) of
              Some p \<Rightarrow> p | None \<Rightarrow> DEFAULT_PALETTE))"

definition dimColor :: "jsstring \<Rightarrow> real \<Rightarrow> jsstring" where
  "dimColor hex factor =
     (let r = parseHex (slice hex 1 3);
          g = parseHex (slice hex 3 5);
          b = parseHex (slice hex 5 7);
          dr = map_option (\<lambda>v. \<lfloor>real_of_int v * factor\<rfloor>) r;
          dg = map_option (\<lambda>v. \<lfloor>real_of_int v * factor\<rfloor>) g;
          db = map_option (\<lambda>v. \<lfloor>real_of_int v * factor\<rfloor>) b
      in js ''#'' @ padStart2 (toString16 dr) @ padStart2 (toString16 dg)
           @ padStart2 (toString16 db))"

definition seededFloat :: "real \<Rightarrow> real \<Rightarrow> real \<Rightarrow> real" where
  "seededFloat seed lo hi =
     (let n = sin (seed * 127.1 + 311.7) * 43758.5453;
          frac = n - real_of_int \<lfloor>n\<rfloor>
      in lo + frac * (hi - lo))"

definition hashInt :: "real \<Rightarrow> real \<Rightarrow> int" where
  "hashInt a b =
     (let n = sin (a * 12.9898 + b * 78.233) * 43758.5453
      in \<lfloor>(n - real_of_int \<lfloor>n\<rfloor>) * 2147483647\<rfloor>)"

definition getMotionOffset :: "Motion \<Rightarrow> real \<Rightarrow> real \<Rightarrow> Offset" where
  "getMotionOffset m time seed =
     (let amp = 2.0 in
      case m of
        Motion_Falling \<Rightarrow>
          \<lparr>dx = sin (time * 0.3 + seed) * amp * 0.3, dy = sin (time * 0.5) * amp\<rparr>
      | Motion_Rising \<Rightarrow>
          \<lparr>dx = sin (time * 0.3 + seed) * amp * 0.3, dy = - sin (time * 0.5) * amp\<rparr>
      | Motion_Drifting \<Rightarrow>
          \<lparr>dx = sin (time * 0.2 + seed * 0.1) * amp * 1.5, dy = cos (time * 0.15) * amp * 0.4\<rparr>
      | Motion_Spinning \<Rightarrow>
          (let angle = time * 0.3 + seed
           in \<lparr>dx = cos angle * amp, dy = sin angle * amp * 0.5\<rparr>)
      | Motion_Pulsing \<Rightarrow>
          (let pulse = sin (time * 1.5 + seed) * 0.5 + 0.5
           in \<lparr>dx = 0, dy = pulse * amp * 0.5\<rparr>)
      | Motion_Expanding \<Rightarrow>
          \<lparr>dx = sin (time * 0.4) * amp * 0.5, dy = cos (time * 0.3) * amp * 0.5\<rparr>
      | Motion_Flowing \<Rightarrow>
          \<lparr>dx = sin (time * 0.25 + seed * 0.1) * amp * 2, dy = cos (time * 0.15) * amp * 0.3\<rparr>
      | Motion_Chaotic \<Rightarrow>
          \<lparr>dx = sin (time * 2 + seed) * amp * 1.5, dy = cos (time * 1.7 + seed * 1.3) * amp\<rparr>
      | _ \<Rightarrow> \<lparr>dx = 0, dy = 0\<rparr>)"

definition getCharColor ::
  "int \<Rightarrow> int \<Rightarrow> int \<Rightarrow> int \<Rightarrow> jsstring list \<Rightarrow> real \<Rightarrow> real \<Rightarrow> jsstring" where
  "getCharColor x y artWidth artHeight palette time seed =
     (let nx = real_of_int x / real_of_int (max 1 artWidth);
          ny = real_of_int y / real_of_int (max 1 artHeight);
          wave = sin (nx * pi * 2 + time * 0.3 + seed * 0.01) * 0.5 + 0.5;
          vertWave = cos (ny * pi * 1.5 + time * 0.2) * 0.5 + 0.5;
          colorIndex = \<lfloor>(wave + vertWave) * 0.5 * real (length palette)\<rfloor>;
          baseColor =
            (case listGet palette (\<bar>colorIndex\<bar> mod int (length palette)) of
               Some c \<Rightarrow> c
             | None \<Rightarrow> (case listGet palette 0 of Some c \<Rightarrow> c | None \<Rightarrow> js ''#8888cc''));
          pulse = sin (time * 1.2 + real_of_int x * 0.1 + real_of_int y * 0.15) * 0.15 + 0.85
      in dimColor baseColor pulse)"

text \<open>The body of the inner loop of \<open>apply\<close>, for the character \<open>chars[col]\<close> of row \<open>row\<close>.\<close>

definition drawArtChar ::
  "Grid \<Rightarrow> jsstring list \<Rightarrow> real \<Rightarrow> real \<Rightarrow> int \<Rightarrow> int \<Rightarrow> int \<Rightarrow> int \<Rightarrow> Offset
     \<Rightarrow> jsstring list \<Rightarrow> int \<Rightarrow> int \<Rightarrow> Grid" where
  "drawArtChar grid palette time seed artWidth artHeight offsetX offsetY motionOffset chars row col =
     (case listGet chars col of
        None \<Rightarrow> grid
      | Some ch \<Rightarrow>
          if ch = [] \<or> ch = js '' '' then grid
          else let gx = \<lfloor>real_of_int offsetX + real_of_int col + dx motionOffset\<rfloor>;
                   gy = \<lfloor>real_of_int offsetY + real_of_int row + dy motionOffset\<rfloor>
               in if gx < 0 \<or> gx \<ge> width grid \<or> gy < 0 \<or> gy \<ge> height grid then grid
                  else let color = getCharColor col row artWidth artHeight palette time seed
                       in setCell grid gx gy ch (Some color) None)"

text \<open>The body of the outer loop: \<open>if (!line) continue\<close> skips an empty line.\<close>

definition drawArtRow ::
  "Grid \<Rightarrow> jsstring list \<Rightarrow> jsstring list \<Rightarrow> real \<Rightarrow> real \<Rightarrow> int \<Rightarrow> int \<Rightarrow> int \<Rightarrow> int
     \<Rightarrow> Offset \<Rightarrow> int \<Rightarrow> Grid" where
  "drawArtRow grid art palette time seed artWidth artHeight offsetX offsetY motionOffset row =
     (case listGet art row of
        None \<Rightarrow> grid
      | Some line \<Rightarrow>
          if line = [] then grid
          else let chars = spread line
               in fold (\<lambda>col g. drawArtChar g palette time seed artWidth artHeight offsetX offsetY
                                   motionOffset chars row col)
                    [0..int (length chars) - 1] grid)"

text \<open>The distinct characters of the art other than the space, in order of appearance.\<close>

definition collectArtChars :: "jsstring list \<Rightarrow> jsstring list" where
  "collectArtChars art =
     fold (\<lambda>line acc.
            fold (\<lambda>ch acc'. if ch \<noteq> js '' '' \<and> ch \<notin> set acc' then acc' @ [ch] else acc')
              (spread line) acc)
       art []"

text \<open>The candidate position \<open>(ex, ey)\<close> of echo \<open>i\<close>, after the motion is applied.\<close>

definition echoPosition :: "Grid \<Rightarrow> DreamSpec \<Rightarrow> real \<Rightarrow> real \<Rightarrow> int \<Rightarrow> int \<times> int" where
  "echoPosition grid spec time seed i =
     (let angle = seededFloat (seed + real_of_int i * 73) 0 (pi * 2);
          distance = seededFloat (seed + real_of_int i * 137 + 500) 0.3 1.0
                     * real_of_int (min (width grid) (height grid)) * 0.45;
          centerX = real_of_int (width grid) / 2;
          centerY = real_of_int (height grid) / 2;
          ex0 = \<lfloor>centerX + cos (angle + time * 0.1) * distance\<rfloor>;
          ey0 = \<lfloor>centerY + sin (angle + time * 0.08) * distance * 0.6\<rfloor>;
          motionOff = getMotionOffset (motion spec) (time * 0.5) (seed + real_of_int i)
      in (ex0 + \<lfloor>dx motionOff * 0.5\<rfloor>, ey0 + \<lfloor>dy motionOff * 0.5\<rfloor>))"

text \<open>The body of the echo loop for index \<open>i\<close>.\<close>

definition echoStep ::
  "Grid \<Rightarrow> DreamSpec \<Rightarrow> jsstring list \<Rightarrow> real \<Rightarrow> real \<Rightarrow> jsstring list
     \<Rightarrow> int \<Rightarrow> int \<Rightarrow> int \<Rightarrow> int \<Rightarrow> int \<Rightarrow> Grid" where
  "echoStep grid spec artChars time seed palette artOffsetX artOffsetY artWidth artHeight i =
     (let (ex, ey) = echoPosition grid spec time seed i in
      if ex < 0 \<or> ex \<ge> width grid \<or> ey < 0 \<or> ey \<ge> height grid then grid
      else if ex \<ge> artOffsetX \<and> ex < artOffsetX + artWidth
              \<and> ey \<ge> artOffsetY \<and> ey < artOffsetY + artHeight then grid
      else let existing = getCell grid ex ey in
        if char existing \<noteq> js '' '' then grid
        else let charIdx = \<bar>hashInt (seed + real_of_int i * 31) (real_of_int i)\<bar>
                             mod int (length artChars);
                 ch = (case listGet artChars charIdx of Some c \<Rightarrow> c | None \<Rightarrow> [0xB7]);
                 colorIdx = i mod int (length palette);
                 color = dimColor (case listGet palette colorIdx of
                                     Some c \<Rightarrow> c | None \<Rightarrow> js ''#555555'') 0.35
             in setCell grid ex ey ch (Some color) None)"

definition drawAmbientEchoes ::
  "Grid \<Rightarrow> DreamSpec \<Rightarrow> jsstring list \<Rightarrow> real \<Rightarrow> real \<Rightarrow> jsstring list
     \<Rightarrow> int \<Rightarrow> int \<Rightarrow> int \<Rightarrow> int \<Rightarrow> Grid" where
  "drawAmbientEchoes grid spec art time seed palette artOffsetX artOffsetY artWidth artHeight =
     (let artChars = collectArtChars art in
      if length artChars = 0 then grid
      else let echoCount = \<lfloor>8 + density spec * 20\<rfloor>
           in fold (\<lambda>i g. echoStep g spec artChars time seed palette
                             artOffsetX artOffsetY artWidth artHeight i)
                [0..echoCount - 1] grid)"

text \<open>
  \<open>Math.max(...art.map((line) => [...line].length))\<close>, for the non-empty \<open>art\<close> that
  \<open>apply\<close> has at that point.
\<close>

definition maxLineLength :: "jsstring list \<Rightarrow> int" where
  "maxLineLength art =
     (case map (\<lambda>line. int (length (spread line))) art of
        [] \<Rightarrow> 0
      | n # ns \<Rightarrow> fold max ns n)"

definition AsciiArtLayer_apply :: "Grid \<Rightarrow> DreamSpec \<Rightarrow> real \<Rightarrow> real \<Rightarrow> real \<Rightarrow> Grid" where
  "AsciiArtLayer_apply grid spec time seed deltaTime =
     (let art = asciiArt spec in
      if length art = 0 then grid
      else let palette = getPalette spec;
               artWidth = maxLineLength art;
               artHeight = int (length art);
               offsetX = \<lfloor>real_of_int (width grid - artWidth) / 2\<rfloor>;
               offsetY = \<lfloor>real_of_int (height grid - artHeight) / 2\<rfloor>;
               motionOffset = getMotionOffset (motion spec) time seed;
               drawn = fold (\<lambda>row g. drawArtRow g art palette time seed artWidth artHeight
                                        offsetX offsetY motionOffset row)
                         [0..artHeight - 1] grid
           in drawAmbientEchoes drawn spec art time seed palette offsetX offsetY artWidth artHeight)"

section \<open>NoiseLayer\<close>

definition NOISE_CHARS :: "jsstring list" where
  "NOISE_CHARS = [js '' '', js '' '', js '' '', [0xB7], [0xB7], [0x2218], [0x2591]]"

definition MOOD_TINTS :: "(string \<times> real \<times> real \<times> real) list" where
  "MOOD_TINTS =
     [(''surreal'', 40, 20, 60),
      (''calm'', 20, 30, 50),
      (''anxious'', 50, 15, 15),
      (''ethereal'', 30, 35, 55),
      (''dark'', 15, 10, 25),
      (''whimsical'', 45, 25, 40),
      (''melancholic'', 20, 25, 45),
      (''euphoric'', 50, 45, 15),
      (''eerie'', 10, 40, 25),
      (''nostalgic'', 45, 35, 20)]"

definition tempoMultipliers :: "(string \<times> real) list" where
  "tempoMultipliers =
     [(''frozen'', 0.0), (''slow'', 0.02), (''medium'', 0.05), (''fast'', 0.1), (''frantic'', 0.2)]"

definition getNoiseScale :: "DreamSpec \<Rightarrow> real" where
  "getNoiseScale spec = 0.04 + density spec * 0.08"

definition getTimeScale :: "DreamSpec \<Rightarrow> real" where
  "getTimeScale spec =
     (case map_of tempoMultipliers (Tempo_value (tempo spec)) of Some m \<Rightarrow> m | None \<Rightarrow> 0.05)"

text \<open>The lattice hash \<open>h\<close> inside \<open>noise3d\<close>.\<close>

definition latticeHash :: "int \<Rightarrow> int \<Rightarrow> int \<Rightarrow> real" where
  "latticeHash a b c =
     (let n = sin (real_of_int a * 127.1 + real_of_int b * 311.7 + real_of_int c * 74.7)
              * 43758.5453
      in (n - real_of_int \<lfloor>n\<rfloor>) * 2 - 1)"

definition noise3d :: "real \<Rightarrow> real \<Rightarrow> real \<Rightarrow> real" where
  "noise3d x y z =
     (let ix = \<lfloor>x\<rfloor>; iy = \<lfloor>y\<rfloor>; iz = \<lfloor>z\<rfloor>;
          fx = x - real_of_int ix; fy = y - real_of_int iy; fz = z - real_of_int iz;
          sx = fx * fx * (3 - 2 * fx);
          sy = fy * fy * (3 - 2 * fy);
          sz = fz * fz * (3 - 2 * fz);
          n000 = latticeHash ix iy iz;
          n100 = latticeHash (ix + 1) iy iz;
          n010 = latticeHash ix (iy + 1) iz;
          n110 = latticeHash (ix + 1) (iy + 1) iz;
          n001 = latticeHash ix iy (iz + 1);
          n101 = latticeHash (ix + 1) iy (iz + 1);
          n011 = latticeHash ix (iy + 1) (iz + 1);
          n111 = latticeHash (ix + 1) (iy + 1) (iz + 1);
          nx00 = n000 + sx * (n100 - n000);
          nx10 = n010 + sx * (n110 - n010);
          nx01 = n001 + sx * (n101 - n001);
          nx11 = n011 + sx * (n111 - n011);
          nxy0 = nx00 + sy * (nx10 - nx00);
          nxy1 = nx01 + sy * (nx11 - nx01)
      in nxy0 + sz * (nxy1 - nxy0))"

text \<open>The loop state of \<open>fbm\<close> is (value, amplitude, frequency, maxAmplitude).\<close>

definition fbm :: "real \<Rightarrow> real \<Rightarrow> real \<Rightarrow> real \<Rightarrow> nat \<Rightarrow> real" where
  "fbm x y t seed octaves =
     (let (v, amplitude, frequency, maxAmplitude) =
            fold (\<lambda>i (v, amplitude, frequency, maxAmplitude).
                    (v + amplitude * noise3d (x * frequency) (y * frequency)
                                       (t + seed + real i * 100),
                     amplitude * 0.5,
                     frequency * 2,
                     maxAmplitude + amplitude))
              [0..<octaves] (0, 1, 1, 0)
      in v / maxAmplitude)"

text \<open>The body of the two loops of \<open>apply\<close>, for the cell \<open>(x, y)\<close>.\<close>

definition noiseCell ::
  "Grid \<Rightarrow> real \<Rightarrow> real \<Rightarrow> real \<times> real \<times> real \<Rightarrow> real \<Rightarrow> real \<Rightarrow> int \<Rightarrow> int \<Rightarrow> Grid" where
  "noiseCell grid noiseScale timeScale tint time seed x y =
     (let current = getCell grid x y in
      if char current \<noteq> js '' '' then grid
      else let noiseVal = fbm (real_of_int x * noiseScale) (real_of_int y * noiseScale)
                            (time * timeScale) seed 3;
               charIndex = \<lfloor>((noiseVal + 1) / 2) * real (length NOISE_CHARS)\<rfloor>;
               clamped = max 0 (min (int (length NOISE_CHARS) - 1) charIndex);
               ch = (case listGet NOISE_CHARS clamped of Some c \<Rightarrow> c | None \<Rightarrow> js '' '')
           in if ch \<noteq> js '' '' then
                (let brightness = 0.3 + ((noiseVal + 1) / 2) * 0.5;
                     (tr, tg, tb) = tint;
                     r = \<lfloor>tr * brightness\<rfloor>;
                     g = \<lfloor>tg * brightness\<rfloor>;
                     b = \<lfloor>tb * brightness\<rfloor>;
                     hex = js ''#'' @ padStart2 (toString16 (Some r)) @ padStart2 (toString16 (Some g))
                             @ padStart2 (toString16 (Some b))
                 in setCell grid x y ch (Some hex) None)
              else grid)"

definition NoiseLayer_apply :: "Grid \<Rightarrow> DreamSpec \<Rightarrow> real \<Rightarrow> real \<Rightarrow> real \<Rightarrow> Grid" where
  "NoiseLayer_apply grid spec time seed deltaTime =
     (let noiseScale = getNoiseScale spec;
          timeScale = getTimeScale spec;
          tint = (case map_of MOOD_TINTS (Mood_value (mood spec)) of
                    Some t \<Rightarrow> t | None \<Rightarrow> (25, 25, 35))
      in fold (\<lambda>y g. fold (\<lambda>x g'. noiseCell g' noiseScale timeScale tint time seed x y)
                        [0..width g - 1] g)
           [0..height grid - 1] grid)"

section \<open>DistortionLayer\<close>

definition strengthMap :: "(string \<times> real) list" where
  "strengthMap =
     [(Distortion_value Distortion_None, 0),
      (Distortion_value Distortion_Low, 0.25),
      (Distortion_value Distortion_Medium, 0.5),
      (Distortion_value Distortion_High, 0.75),
      (Distortion_value Distortion_Extreme, 1.0)]"

definition getStrength :: "string \<Rightarrow> real" where
  "getStrength d = (case map_of strengthMap d of Some v \<Rightarrow> v | None \<Rightarrow> 0.5)"

definition computeOffset ::
  "int \<Rightarrow> int \<Rightarrow> int \<Rightarrow> int \<Rightarrow> Motion \<Rightarrow> real \<Rightarrow> real \<Rightarrow> real \<Rightarrow> Offset" where
  "computeOffset xi yi w h m time seed strength =
     (let x = real_of_int xi; y = real_of_int yi;
          cx = real_of_int w / 2;
          cy = real_of_int h / 2;
          nx = (x - cx) / cx;
          ny = (y - cy) / cy
      in case m of
        Motion_Falling \<Rightarrow>
          \<lparr>dx = cos (y * 0.2 + time * 0.5) * strength * 0.5,
           dy = sin (x * 0.3 + time * 1.5 + seed) * strength * 3\<rparr>
      | Motion_Rising \<Rightarrow>
          \<lparr>dx = cos (y * 0.2 + time * 0.5) * strength * 0.5,
           dy = - sin (x * 0.3 + time * 1.5 + seed) * strength * 3\<rparr>
      | Motion_Spinning \<Rightarrow>
          (let angle = time * 0.8 + seed;
               dist = sqrt (nx * nx + ny * ny)
           in \<lparr>dx = cos (angle + dist * 3) * strength * 4 * dist,
               dy = sin (angle + dist * 3) * strength * 4 * dist\<rparr>)
      | Motion_Pulsing \<Rightarrow>
          (let pulse = sin (time * 2 + seed) * 0.5 + 0.5
           in \<lparr>dx = nx * pulse * strength * 5, dy = ny * pulse * strength * 5\<rparr>)
      | Motion_Drifting \<Rightarrow>
          \<lparr>dx = sin (y * 0.15 + time * 0.4 + seed) * strength * 3 + sin (time * 0.2) * strength,
           dy = cos (x * 0.1 + time * 0.3) * strength * 0.5\<rparr>
      | Motion_Expanding \<Rightarrow>
          (let expPulse = (sin (time * 1.2 + seed) + 1) * 0.5
           in \<lparr>dx = nx * expPulse * strength * 6, dy = ny * expPulse * strength * 6\<rparr>)
      | Motion_Contracting \<Rightarrow>
          (let conPulse = (cos (time * 1.2 + seed) + 1) * 0.5
           in \<lparr>dx = - nx * conPulse * strength * 6, dy = - ny * conPulse * strength * 6\<rparr>)
      | Motion_Flowing \<Rightarrow>
          \<lparr>dx = sin (y * 0.1 + time * 0.6 + seed) * strength * 4
                + sin (y * 0.05 + time * 0.3) * strength * 2,
           dy = cos (x * 0.08 + time * 0.2) * strength\<rparr>
      | Motion_Chaotic \<Rightarrow>
          \<lparr>dx = sin (x * 0.5 + time * 2 + seed) * strength * 4
                + cos (y * 0.7 + time * 3) * strength * 2,
           dy = cos (y * 0.5 + time * 2.5 + seed) * strength * 4
                + sin (x * 0.3 + time * 1.5) * strength * 2\<rparr>
      | _ \<Rightarrow>
          \<lparr>dx = sin (x * 0.2 + seed) * strength * 0.5,
           dy = cos (y * 0.2 + seed) * strength * 0.5\<rparr>)"

text \<open>The snapshot loop pushes the cells row by row.\<close>

definition takeSnapshot :: "Grid \<Rightarrow> Cell list" where
  "takeSnapshot grid =
     concat (map (\<lambda>y. map (\<lambda>x. getCell grid x y) [0..width grid - 1]) [0..height grid - 1])"

text \<open>The source cell \<open>(srcX, srcY)\<close> of the destination \<open>(x, y)\<close>.\<close>

definition warpSource ::
  "Grid \<Rightarrow> DreamSpec \<Rightarrow> real \<Rightarrow> real \<Rightarrow> real \<Rightarrow> int \<Rightarrow> int \<Rightarrow> int \<times> int" where
  "warpSource grid spec time seed strength x y =
     (let offset = computeOffset x y (width grid) (height grid) (motion spec) time seed strength
      in (round (real_of_int x + dx offset), round (real_of_int y + dy offset)))"

text \<open>The body of the displacement loops for the destination \<open>(x, y)\<close>.\<close>

definition warpCell ::
  "Cell list \<Rightarrow> Grid \<Rightarrow> DreamSpec \<Rightarrow> real \<Rightarrow> real \<Rightarrow> real \<Rightarrow> int \<Rightarrow> int \<Rightarrow> Grid" where
  "warpCell snapshot grid spec time seed strength x y =
     (let (srcX, srcY) = warpSource grid spec time seed strength x y in
      if srcX \<ge> 0 \<and> srcX < width grid \<and> srcY \<ge> 0 \<and> srcY < height grid then
        (let srcIdx = srcY * width grid + srcX in
         case listGet snapshot srcIdx of
           Some src \<Rightarrow> setCell grid x y (char src) (Some (fg src)) (Some (bg src))
         | None \<Rightarrow> grid)
      else grid)"

text \<open>The snapshot and the displacement loops together: lines 28 to 60 of \<open>apply\<close>.\<close>

definition warp :: "Grid \<Rightarrow> DreamSpec \<Rightarrow> real \<Rightarrow> real \<Rightarrow> real \<Rightarrow> Grid" where
  "warp grid spec time seed strength =
     (let snapshot = takeSnapshot grid
      in fold (\<lambda>y g. fold (\<lambda>x g'. warpCell snapshot g' spec time seed strength x y)
                        [0..width g - 1] g)
           [0..height grid - 1] grid)"

definition glitchChars :: "jsstring list" where
  "glitchChars = [[0x2588], [0x2593], [0x2592], [0x2591], [0x2573], [0x256C], [0x253C],
                  [0x2261], [0x224B]]"

text \<open>The body of the glitch loops for the cell \<open>(x, y)\<close>.\<close>

definition glitchCell :: "Grid \<Rightarrow> real \<Rightarrow> real \<Rightarrow> real \<Rightarrow> int \<Rightarrow> int \<Rightarrow> Grid" where
  "glitchCell grid time seed glitchRate x y =
     (let hash = sin (real_of_int x * 92.1 + real_of_int y * 301.7 + time * 50 + seed * 7.3)
                 * 43758.5;
          prob = hash - real_of_int \<lfloor>hash\<rfloor>
      in if prob < glitchRate then
           (let ci = \<lfloor>prob * 100\<rfloor> mod int (length glitchChars);
                glitchChar = (case listGet glitchChars ci of
                                Some c \<Rightarrow> Some c | None \<Rightarrow> listGet glitchChars 0)
            in if truthy glitchChar
               then setCell grid x y (the glitchChar) (Some (js ''#ff3366'')) None
               else grid)
         else grid)"

definition applyCharacterGlitch :: "Grid \<Rightarrow> real \<Rightarrow> real \<Rightarrow> real \<Rightarrow> Grid" where
  "applyCharacterGlitch grid time seed strength =
     (let glitchRate = (strength - 0.7) * 0.15
      in fold (\<lambda>y g. fold (\<lambda>x g'. glitchCell g' time seed glitchRate x y) [0..width g - 1] g)
           [0..height grid - 1] grid)"

definition DistortionLayer_apply :: "Grid \<Rightarrow> DreamSpec \<Rightarrow> real \<Rightarrow> real \<Rightarrow> real \<Rightarrow> Grid" where
  "DistortionLayer_apply grid spec time seed deltaTime =
     (let strength = getStrength (Distortion_value (distortion spec)) in
      if strength \<le> 0 then grid
      else let warped = warp grid spec time seed strength
           in if strength \<ge> 0.7 then applyCharacterGlitch warped time seed strength
              else warped)"

section \<open>Renderer\<close>

text \<open>The layers a renderer can hold, and the dispatch of \<open>layer.apply\<close>.\<close>

datatype RenderLayer = AsciiArtLayer | NoiseLayer | DistortionLayer

fun RenderLayer_apply ::
  "RenderLayer \<Rightarrow> Grid \<Rightarrow> DreamSpec \<Rightarrow> real \<Rightarrow> real \<Rightarrow> real \<Rightarrow> Grid" where
  "RenderLayer_apply AsciiArtLayer g spec time seed deltaTime =
     AsciiArtLayer_apply g spec time seed deltaTime"
| "RenderLayer_apply NoiseLayer g spec time seed deltaTime =
     NoiseLayer_apply g spec time seed deltaTime"
| "RenderLayer_apply DistortionLayer g spec time seed deltaTime =
     DistortionLayer_apply g spec time seed deltaTime"

record Renderer =
  layers :: "RenderLayer list"
  grid :: Grid

definition Renderer_new :: "int \<Rightarrow> int \<Rightarrow> RenderLayer list option \<Rightarrow> jserror + Renderer" where
  "Renderer_new w h layersArg =
     (case Grid_new w h of
        Inl e \<Rightarrow> Inl e
      | Inr g \<Rightarrow>
          Inr \<lparr>layers = (case layersArg of
                           None \<Rightarrow> [AsciiArtLayer, NoiseLayer, DistortionLayer]
                         | Some ls \<Rightarrow> ls),
               grid = g\<rparr>)"

text \<open>
  \<open>renderFrame\<close> clears the renderer's grid, applies the layers in order and returns
  the grid, which stays the renderer's: the result is the grid and the renderer after.
\<close>

definition renderFrame ::
  "Renderer \<Rightarrow> DreamSpec \<Rightarrow> real \<Rightarrow> real \<Rightarrow> real \<Rightarrow> Grid \<times> Renderer" where
  "renderFrame r spec time seed deltaTime =
     (let cleared = clear (grid r) None None None;
          g = fold (\<lambda>layer g'. RenderLayer_apply layer g' spec time seed deltaTime)
                (layers r) cleared
      in (g, r\<lparr>grid := g\<rparr>))"

definition resize :: "Renderer \<Rightarrow> int \<Rightarrow> int \<Rightarrow> jserror + Renderer" where
  "resize r w h = (case Grid_new w h of Inl e \<Rightarrow> Inl e | Inr g \<Rightarrow> Inr (r\<lparr>grid := g\<rparr>))"

text \<open>The cells at which two grids read differently.\<close>

definition changedCells :: "Grid \<Rightarrow> Grid \<Rightarrow> (int \<times> int) set" where
  "changedCells g g' = {(x, y). getCell g' x y \<noteq> getCell g x y}"

text \<open>What a loop step may write to the cell it visits: a glyph and the two optional colours.\<close>

type_synonym paint = "jsstring \<times> jsstring option \<times> jsstring option"

section \<open>Sample values\<close>

text \<open>The grid that \<open>new Grid(2, 1)\<close> constructs.\<close>

definition sampleGrid :: Grid where
  "sampleGrid =
     \<lparr>width = 2, height = 1,
      cells = [Some (js '' ''), Some (js '' '')],
      fgColors = [Some (js ''#888888''), Some (js ''#888888'')],
      bgColors = [Some (js ''#000000''), Some (js ''#000000'')]\<rparr>"

text \<open>A one-glyph scene without distortion, and the default renderer on the sample grid.\<close>

definition sampleSpec :: DreamSpec where
  "sampleSpec =
     \<lparr>asciiArt = [js ''x''], colorPalette = [js ''#ffffff''], dominantElements = [js ''void''],
      motion = Motion_Static, distortion = Distortion_None, tempo = Tempo_Medium,
      density = 0, mood = Mood_Calm\<rparr>"

definition sampleRenderer :: Renderer where
  "sampleRenderer = \<lparr>layers = [AsciiArtLayer, NoiseLayer, DistortionLayer], grid = sampleGrid\<rparr>"

text \<open>
  Values for the distortion layer: the 1 by 1 blank grid with a pulsing, high-severity
  scene; a 3 by 2 grid with one red glyph and a contracting, low-severity scene; and the
  3 by 2 grid left by \<open>clear(" ", "")\<close> followed by \<open>setCell(0, 1, " ", "#888888")\<close>,
  whose other foreground colours are the empty string.
\<close>

definition unitGrid :: Grid where
  "unitGrid =
     \<lparr>width = 1, height = 1, cells = [Some (js '' '')],
      fgColors = [Some (js ''#888888'')], bgColors = [Some (js ''#000000'')]\<rparr>"

definition glitchSpec :: DreamSpec where
  "glitchSpec = sampleSpec\<lparr>motion := Motion_Pulsing, distortion := Distortion_High\<rparr>"

definition warpSpec :: DreamSpec where
  "warpSpec = sampleSpec\<lparr>motion := Motion_Contracting, distortion := Distortion_Low\<rparr>"

definition litGrid :: Grid where
  "litGrid =
     \<lparr>width = 3, height = 2,
      cells = [Some (js '' ''), Some (js '' ''), Some (js '' ''),
               Some (js '' ''), Some (js '' ''), Some (js ''A'')],
      fgColors = [Some (js ''#888888''), Some (js ''#888888''), Some (js ''#888888''),
                  Some (js ''#888888''), Some (js ''#888888''), Some (js ''#ff0000'')],
      bgColors = [Some (js ''#000000''), Some (js ''#000000''), Some (js ''#000000''),
                  Some (js ''#000000''), Some (js ''#000000''), Some (js ''#000000'')]\<rparr>"

definition fadedGrid :: Grid where
  "fadedGrid =
     \<lparr>width = 3, height = 2,
      cells = [Some (js '' ''), Some (js '' ''), Some (js '' ''),
               Some (js '' ''), Some (js '' ''), Some (js '' '')],
      fgColors = [Some [], Some [], Some [], Some (js ''#888888''), Some [], Some []],
      bgColors = [Some (js ''#000000''), Some (js ''#000000''), Some (js ''#000000''),
                  Some (js ''#000000''), Some (js ''#000000''), Some (js ''#000000'')]\<rparr>"

section \<open>Properties of the seed hash\<close>

lemma seedFromText_nonneg: "0 \<le> seedFromText text"
  by (simp add: seedFromText_def)

section \<open>Grid: reading and writing cells\<close>

lemma fold_invariant:
  assumes "P s" and "\<And>x t. P t \<Longrightarrow> P (f x t)"
  shows "P (fold f xs s)"
  using assms by (induction xs arbitrary: s) auto

lemma arraySet_nat:
  "arraySet xs (int n) v =
     (if n < length xs then xs[n := Some v]
      else xs @ replicate (n - length xs) None @ [Some v])"
  by (simp add: arraySet_def)

lemma arrayGet_nat: "arrayGet xs (int m) = (if m < length xs then xs ! m else None)"
  by (simp add: arrayGet_def)

lemma arrayGet_neg: "j < 0 \<Longrightarrow> arrayGet xs j = None"
  by (simp add: arrayGet_def)

lemma arrayGet_arraySet_nat:
  "arrayGet (arraySet xs (int n) v) (int m) = (if m = n then Some v else arrayGet xs (int m))"
proof (cases "n < length xs")
  case True
  then show ?thesis by (simp add: arraySet_nat arrayGet_nat nth_list_update)
next
  case False
  then have len: "length xs \<le> n" by simp
  show ?thesis
  proof (cases "m < length xs")
    case True
    with len show ?thesis by (simp add: arraySet_nat arrayGet_nat nth_append)
  next
    case False
    then have lm: "length xs \<le> m" by simp
    consider "m < n" | "m = n" | "n < m" by linarith
    then show ?thesis
    proof cases
      case 1
      with len lm have "m - length xs < n - length xs" by linarith
      with 1 len lm show ?thesis
        by (simp add: arraySet_nat arrayGet_nat nth_append)
    next
      case 2
      with len show ?thesis by (simp add: arraySet_nat arrayGet_nat nth_append)
    next
      case 3
      with len lm show ?thesis by (simp add: arraySet_nat arrayGet_nat)
    qed
  qed
qed

lemma arrayGet_arraySet:
  assumes "0 \<le> i"
  shows "arrayGet (arraySet xs i v) j = (if j = i then Some v else arrayGet xs j)"
proof (cases "j < 0")
  case True
  with assms show ?thesis by (simp add: arrayGet_neg)
next
  case False
  with assms obtain n m where "i = int n" "j = int m"
    by (metis nonneg_int_cases not_le)
  then show ?thesis by (simp only: arrayGet_arraySet_nat int_int_eq)
qed

lemma length_arraySet_in: "0 \<le> i \<Longrightarrow> i < int (length xs) \<Longrightarrow> length (arraySet xs i v) = length xs"
  by (simp add: arraySet_def)

lemma setCell_dims [simp]:
  "width (setCell g x y ch fa ba) = width g" "height (setCell g x y ch fa ba) = height g"
  by (simp_all add: setCell_def Let_def)

lemma inBounds_setCell [simp]:
  "inBounds (setCell g x y ch fa ba) x' y' = inBounds g x' y'"
  by (simp add: inBounds_def)

lemma index_nonneg: "inBounds g x y \<Longrightarrow> 0 \<le> index g x y"
  by (simp add: inBounds_def index_def)

lemma index_less: "inBounds g x y \<Longrightarrow> index g x y < width g * height g"
proof -
  assume b: "inBounds g x y"
  then have "y + 1 \<le> height g" "0 < width g" "x < width g" "0 \<le> y" by (simp_all add: inBounds_def)
  then have "(y + 1) * width g \<le> height g * width g" by (intro mult_right_mono) simp_all
  with \<open>x < width g\<close> show ?thesis by (simp add: index_def algebra_simps)
qed

lemma index_inj:
  assumes "inBounds g x y" "inBounds g x' y'" "index g x y = index g x' y'"
  shows "x = x' \<and> y = y'"
proof -
  from assms have w: "0 < width g" and x: "0 \<le> x" "x < width g" and x': "0 \<le> x'" "x' < width g"
    by (simp_all add: inBounds_def)
  from assms(3) have e: "y * width g + x = y' * width g + x'" by (simp add: index_def)
  have "(y * width g + x) div width g = y" using w x by simp
  moreover have "(y' * width g + x') div width g = y'" using w x' by simp
  ultimately have "y = y'" using e by simp
  with e show ?thesis by simp
qed

lemma setCell_out: "\<not> inBounds g x y \<Longrightarrow> setCell g x y ch fa ba = g"
  by (simp add: setCell_def)

lemma setCell_cells:
  "inBounds g x y \<Longrightarrow> cells (setCell g x y ch fa ba) = arraySet (cells g) (index g x y) ch"
  by (simp add: setCell_def Let_def)

lemma setCell_fgColors:
  "inBounds g x y \<Longrightarrow>
     fgColors (setCell g x y ch fa ba) =
       (if truthy fa then arraySet (fgColors g) (index g x y) (the fa) else fgColors g)"
  by (simp add: setCell_def Let_def)

lemma setCell_bgColors:
  "inBounds g x y \<Longrightarrow>
     bgColors (setCell g x y ch fa ba) =
       (if truthy ba then arraySet (bgColors g) (index g x y) (the ba) else bgColors g)"
  by (simp add: setCell_def Let_def)

lemma index_setCell [simp]: "index (setCell g x y ch fa ba) x' y' = index g x' y'"
  by (simp add: index_def)

lemma getCell_out:
  "\<not> inBounds g x y \<Longrightarrow>
     getCell g x y = \<lparr>char = js '' '', fg = js ''#888888'', bg = js ''#000000''\<rparr>"
  by (simp add: getCell_def)

lemma getCell_in:
  "inBounds g x y \<Longrightarrow>
     getCell g x y =
       \<lparr>char = (case arrayGet (cells g) (index g x y) of Some c \<Rightarrow> c | None \<Rightarrow> js '' ''),
        fg = (case arrayGet (fgColors g) (index g x y) of Some c \<Rightarrow> c | None \<Rightarrow> js ''#888888''),
        bg = (case arrayGet (bgColors g) (index g x y) of Some c \<Rightarrow> c | None \<Rightarrow> js ''#000000'')\<rparr>"
  by (simp add: getCell_def Let_def)

lemma getCell_setCell_same:
  assumes b: "inBounds g x y"
  shows "getCell (setCell g x y ch fa ba) x y =
       \<lparr>char = ch,
        fg = (if truthy fa then the fa else fg (getCell g x y)),
        bg = (if truthy ba then the ba else bg (getCell g x y))\<rparr>"
proof -
  have b': "inBounds (setCell g x y ch fa ba) x y" using b by simp
  have n: "0 \<le> index g x y" by (rule index_nonneg [OF b])
  show ?thesis
    unfolding getCell_in [OF b'] getCell_in [OF b] index_setCell
      setCell_cells [OF b] setCell_fgColors [OF b] setCell_bgColors [OF b]
    by (simp add: arrayGet_arraySet [OF n])
qed

lemma getCell_setCell_other:
  assumes ne: "(x', y') \<noteq> (x, y)"
  shows "getCell (setCell g x y ch fa ba) x' y' = getCell g x' y'"
proof (cases "inBounds g x y")
  case False
  then show ?thesis by (simp add: setCell_out)
next
  case a: True
  show ?thesis
  proof (cases "inBounds g x' y'")
    case False
    then have "\<not> inBounds (setCell g x y ch fa ba) x' y'" by simp
    from getCell_out [OF this] getCell_out [OF False] show ?thesis by simp
  next
    case b: True
    have b': "inBounds (setCell g x y ch fa ba) x' y'" using b by simp
    have i: "index g x' y' \<noteq> index g x y" using index_inj [OF b a] ne by auto
    have n: "0 \<le> index g x y" by (rule index_nonneg [OF a])
    show ?thesis
      unfolding getCell_in [OF b'] getCell_in [OF b] index_setCell
        setCell_cells [OF a] setCell_fgColors [OF a] setCell_bgColors [OF a]
      using i by (simp add: arrayGet_arraySet [OF n])
  qed
qed

lemma getCell_setCell:
  "getCell (setCell g x y ch fa ba) x' y' =
     (if x' = x \<and> y' = y \<and> inBounds g x y then
        \<lparr>char = ch,
         fg = (if truthy fa then the fa else fg (getCell g x y)),
         bg = (if truthy ba then the ba else bg (getCell g x y))\<rparr>
      else getCell g x' y')"
proof (cases "x' = x \<and> y' = y")
  case True
  then show ?thesis
  proof (cases "inBounds g x y")
    case True
    with \<open>x' = x \<and> y' = y\<close> show ?thesis by (simp add: getCell_setCell_same)
  next
    case False
    then show ?thesis by (simp add: setCell_def)
  qed
next
  case False
  then show ?thesis using getCell_setCell_other [of x' y' x y] by auto
qed

lemma wellFormed_setCell: "wellFormed g \<Longrightarrow> wellFormed (setCell g x y ch fa ba)"
proof (cases "inBounds g x y")
  case False
  assume "wellFormed g"
  with False show ?thesis by (simp add: setCell_def)
next
  case True
  assume wf: "wellFormed g"
  have n: "0 \<le> index g x y" by (rule index_nonneg [OF True])
  have l: "index g x y < width g * height g" by (rule index_less [OF True])
  from wf l have l1: "index g x y < int (length (cells g))" "index g x y < int (length (fgColors g))"
    "index g x y < int (length (bgColors g))" by (simp_all add: wellFormed_def)
  show ?thesis using wf True n l1
    by (simp add: setCell_def Let_def wellFormed_def length_arraySet_in)
qed

lemma wellFormed_clear: "wellFormed g \<Longrightarrow> wellFormed (clear g ca fa ba)"
  by (simp add: wellFormed_def clear_def arrayFill_def)

lemma wellFormed_fillRect: "wellFormed g \<Longrightarrow> wellFormed (fillRect g x0 y0 w h ch fa ba)"
  unfolding fillRect_def
  by (intro fold_invariant [where P = wellFormed]) (simp_all add: wellFormed_setCell)

lemma wellFormed_Grid_new: "Grid_new w h = Inr g \<Longrightarrow> wellFormed g"
  by (auto simp add: Grid_new_def Let_def wellFormed_def split: if_splits)

text \<open>
  Claim C4. At every coordinate outside \<open>[0, width) \<times> [0, height)\<close>, \<open>getCell\<close> returns
  the fixed blank cell and \<open>setCell\<close> leaves the grid as it is. No operation has an error
  result: \<open>setCell\<close>, \<open>clear\<close> and \<open>fillRect\<close> are total, and at any arguments they
  take a grid whose arrays have \<open>width * height\<close> slots to such a grid, so no write
  lands outside the arrays.
\<close>

theorem C4_out_of_bounds_absorbed:
  "(\<not> inBounds g x y \<longrightarrow>
      getCell g x y = \<lparr>char = js '' '', fg = js ''#888888'', bg = js ''#000000''\<rparr> \<and>
      setCell g x y ch fgArg bgArg = g) \<and>
   (wellFormed g \<longrightarrow>
      wellFormed (setCell g x y ch fgArg bgArg) \<and>
      wellFormed (clear g chArg fgArg bgArg) \<and>
      wellFormed (fillRect g x0 y0 w h ch fgArg bgArg))"
proof -
  have "\<not> inBounds g x y \<Longrightarrow>
      getCell g x y = \<lparr>char = js '' '', fg = js ''#888888'', bg = js ''#000000''\<rparr>"
    by (simp add: getCell_def)
  moreover have "\<not> inBounds g x y \<Longrightarrow> setCell g x y ch fgArg bgArg = g"
    by (simp add: setCell_def)
  ultimately show ?thesis
    using wellFormed_setCell wellFormed_clear wellFormed_fillRect by blast
qed

text \<open>The constructed 2 by 1 grid, read and written at \<open>(2, 0)\<close> and filled from \<open>(-1, -1)\<close>.\<close>

lemma Grid_new_sample: "Grid_new 2 1 = Inr sampleGrid"
  by (simp add: Grid_new_def sampleGrid_def numeral_2_eq_2)

theorem C4_out_of_bounds_absorbed_witness:
  "Grid_new 2 1 = Inr sampleGrid \<and>
   \<not> inBounds sampleGrid 2 0 \<and>
   getCell sampleGrid 2 0 = \<lparr>char = js '' '', fg = js ''#888888'', bg = js ''#000000''\<rparr> \<and>
   setCell sampleGrid 2 0 (js ''x'') (Some (js ''#ffffff'')) None = sampleGrid \<and>
   wellFormed sampleGrid \<and>
   wellFormed (fillRect sampleGrid (- 1) (- 1) 5 5 (js ''x'') (Some (js ''#ffffff'')) None)"
proof -
  have o: "\<not> inBounds sampleGrid 2 0" by (simp add: inBounds_def sampleGrid_def)
  have w: "wellFormed sampleGrid" by (simp add: wellFormed_def sampleGrid_def)
  from C4_out_of_bounds_absorbed [of sampleGrid 2 0 "js ''x''" "Some (js ''#ffffff'')" None
         None "- 1" "- 1" 5 5] o w Grid_new_sample
  show ?thesis by blast
qed

text \<open>
  Claim C10. An in-bounds \<open>setCell\<close> always overwrites the glyph; a colour changes only
  when its argument is a non-empty string: an omitted argument and the empty string
  both leave the colour of the cell as it was.
\<close>

theorem C10_setCell_colours:
  "inBounds g x y \<Longrightarrow>
     char (getCell (setCell g x y ch fgArg bgArg) x y) = ch \<and>
     fg (getCell (setCell g x y ch fgArg bgArg) x y) =
       (case fgArg of None \<Rightarrow> fg (getCell g x y)
        | Some c \<Rightarrow> if c = [] then fg (getCell g x y) else c) \<and>
     bg (getCell (setCell g x y ch fgArg bgArg) x y) =
       (case bgArg of None \<Rightarrow> bg (getCell g x y)
        | Some c \<Rightarrow> if c = [] then bg (getCell g x y) else c)"
  by (simp add: getCell_setCell_same truthy_def split: option.splits)

text \<open>The empty string as \<open>fg\<close> and no \<open>bg\<close>, at the cell \<open>(1, 0)\<close> of the sample grid.\<close>

theorem C10_setCell_colours_witness:
  "inBounds sampleGrid 1 0 \<and>
   char (getCell (setCell sampleGrid 1 0 (js ''x'') (Some []) None) 1 0) = js ''x'' \<and>
   fg (getCell (setCell sampleGrid 1 0 (js ''x'') (Some []) None) 1 0) = js ''#888888'' \<and>
   bg (getCell (setCell sampleGrid 1 0 (js ''x'') (Some []) None) 1 0) = js ''#000000''"
proof -
  have b: "inBounds sampleGrid 1 0" by (simp add: inBounds_def sampleGrid_def)
  have c: "getCell sampleGrid 1 0 = \<lparr>char = js '' '', fg = js ''#888888'', bg = js ''#000000''\<rparr>"
    by (simp add: getCell_def inBounds_def index_def sampleGrid_def arrayGet_def Let_def)
  from C10_setCell_colours [OF b, of "js ''x''" "Some []" None] b c
  show ?thesis by simp
qed
section \<open>AnimationLoop: the playback state machine\<close>

lemma call_keeps_stopped:
  "c \<noteq> Start \<Longrightarrow> state l = Stopped \<Longrightarrow> elapsedTime l = 0 \<Longrightarrow>
     state (call c l) = Stopped \<and> elapsedTime (call c l) = 0"
  by (cases c)
     (simp_all add: tick_def pause_def resume_def togglePause_def stop_def reset_def setFps_def)

lemma calls_keep_stopped:
  "Start \<notin> set cs \<Longrightarrow> state l = Stopped \<Longrightarrow> elapsedTime l = 0 \<Longrightarrow>
     state (calls cs l) = Stopped \<and> elapsedTime (calls cs l) = 0"
  unfolding calls_def
proof (induction cs arbitrary: l)
  case Nil
  then show ?case by simp
next
  case (Cons c cs)
  from Cons.prems have c: "c \<noteq> Start" and cs: "Start \<notin> set cs" by auto
  from call_keeps_stopped [OF c Cons.prems(2) Cons.prems(3)]
  have "state (call c l) = Stopped" and "elapsedTime (call c l) = 0" by simp_all
  from Cons.IH [OF cs this] show ?case by simp
qed

text \<open>
  Claim C3. \<open>tick(deltaMs)\<close> returns the skip signal (\<open>null\<close>) and leaves the loop as it
  is whenever the state is not running; when running it adds \<open>deltaMs / 1000\<close> to
  \<open>elapsedTime\<close> and returns the new value. After \<open>stop()\<close> the elapsed time is \<open>0\<close>, and
  after any further calls other than \<open>start()\<close> a tick still returns the skip signal and
  the elapsed time is still \<open>0\<close>; once \<open>start()\<close> is called, the next tick counts from \<open>0\<close>.
\<close>

theorem C3_tick_contract:
  "(state l \<noteq> Running \<longrightarrow> tick l deltaMs = (None, l)) \<and>
   (state l = Running \<longrightarrow>
      tick l deltaMs =
        (Some (elapsedTime l + deltaMs / 1000),
         l\<lparr>elapsedTime := elapsedTime l + deltaMs / 1000\<rparr>)) \<and>
   elapsedTime (stop l) = 0 \<and>
   (Start \<notin> set cs \<longrightarrow>
      tick (calls cs (stop l)) deltaMs = (None, calls cs (stop l)) \<and>
      elapsedTime (calls cs (stop l)) = 0 \<and>
      fst (tick (start (calls cs (stop l))) deltaMs) = Some (deltaMs / 1000))"
proof -
  have stopped: "state (stop l) = Stopped" "elapsedTime (stop l) = 0"
    by (simp_all add: stop_def)
  have after: "Start \<notin> set cs \<Longrightarrow>
      state (calls cs (stop l)) = Stopped \<and> elapsedTime (calls cs (stop l)) = 0"
    using calls_keep_stopped [OF _ stopped] by simp
  show ?thesis
    using after by (auto simp add: tick_def Let_def stop_def start_def)
qed

text \<open>
  The contract at a paused loop, at a running loop, and at a loop stopped and then ticked,
  resumed and toggled without a \<open>start()\<close>.
\<close>

theorem C3_tick_contract_witness:
  "state (pause (start (AnimationLoop_new None))) \<noteq> Running \<and>
   tick (pause (start (AnimationLoop_new None))) 100 =
     (None, pause (start (AnimationLoop_new None))) \<and>
   state (start (AnimationLoop_new None)) = Running \<and>
   fst (tick (start (AnimationLoop_new None)) 100) = Some (1 / 10) \<and>
   Start \<notin> set [Tick 100, Resume, TogglePause, Tick 50] \<and>
   fst (tick (calls [Tick 100, Resume, TogglePause, Tick 50]
               (stop (start (AnimationLoop_new None)))) 100) = None"
proof -
  have p: "state (pause (start (AnimationLoop_new None))) \<noteq> Running"
    by (simp add: pause_def start_def AnimationLoop_new_def)
  have r: "state (start (AnimationLoop_new None)) = Running"
    by (simp add: start_def)
  have n: "Start \<notin> set [Tick 100, Resume, TogglePause, Tick 50]" by simp
  from C3_tick_contract [of "pause (start (AnimationLoop_new None))" 100 "[]"] p
  have 1: "tick (pause (start (AnimationLoop_new None))) 100 =
     (None, pause (start (AnimationLoop_new None)))" by blast
  from C3_tick_contract [of "start (AnimationLoop_new None)" 100
        "[Tick 100, Resume, TogglePause, Tick 50]"] r n
  have 2: "tick (start (AnimationLoop_new None)) 100 =
        (Some (elapsedTime (start (AnimationLoop_new None)) + 100 / 1000),
         (start (AnimationLoop_new None))\<lparr>elapsedTime := elapsedTime (start (AnimationLoop_new None)) + 100 / 1000\<rparr>)"
    and 3: "tick (calls [Tick 100, Resume, TogglePause, Tick 50]
               (stop (start (AnimationLoop_new None)))) 100 = (None, calls [Tick 100, Resume, TogglePause, Tick 50]
               (stop (start (AnimationLoop_new None))))" by blast+
  have 4: "fst (tick (start (AnimationLoop_new None)) 100) = Some (1 / 10)"
    unfolding 2 by (simp add: start_def AnimationLoop_new_def)
  show ?thesis using p 1 r 4 n 3 by simp
qed

section \<open>AnimationLoop: the frame rate\<close>

lemma setFps_NaN: "getFps (setFps l NaN) = NaN"
  by (simp add: getFps_def setFps_def)

lemma setFps_clamped:
  assumes "f \<noteq> NaN"
  shows "\<exists>v. getFps (setFps l f) = Finite v \<and> 1 \<le> v \<and> v \<le> 60 \<and>
             (\<forall>a. f = Finite a \<and> a \<in> \<int> \<longrightarrow> v \<in> \<int>)"
proof (cases f)
  case NaN
  with assms show ?thesis by simp
next
  case NegInfinity
  then show ?thesis by (simp add: getFps_def setFps_def)
next
  case (Finite a)
  then show ?thesis by (simp add: getFps_def setFps_def min_def max_def)
next
  case PosInfinity
  then show ?thesis by (simp add: getFps_def setFps_def)
qed

lemma five_halves_not_int: "(5 / 2 :: real) \<notin> \<int>"
proof
  assume "(5 / 2 :: real) \<in> \<int>"
  then obtain k :: int where k: "(5 / 2 :: real) = of_int k" by (auto elim: Ints_cases)
  then have "(of_int (2 * k) :: real) = of_int 5" by simp
  then have "2 * k = 5" by (simp only: of_int_eq_iff)
  then show False by presburger
qed

text \<open>
  Claim C5 says that \<open>getFps()\<close> is always an integer in \<open>[1, 60]\<close>, after construction
  with any argument and after any \<open>setFps\<close> calls. \<open>setFps\<close> clamps and does not round:
  \<open>setFps(2.5)\<close> leaves \<open>2.5\<close>. The constructor stores its argument unclamped:
  \<open>new AnimationLoop(100)\<close> reports \<open>100\<close>. And \<open>setFps(NaN)\<close> leaves NaN.
\<close>

theorem C5_fps_counterexample:
  "getFps (setFps (AnimationLoop_new None) (Finite (5 / 2))) = Finite (5 / 2) \<and>
   (5 / 2 :: real) \<notin> \<int> \<and>
   getFps (AnimationLoop_new (Some (Finite 100))) = Finite 100 \<and>
   \<not> (100 :: real) \<le> 60 \<and>
   getFps (setFps (AnimationLoop_new None) NaN) = NaN"
  using five_halves_not_int
  by (simp add: getFps_def setFps_def AnimationLoop_new_def)

text \<open>
  Claim C5, amended. After one or more \<open>setFps\<close> calls, the last of them with an
  argument that is not NaN, \<open>getFps()\<close> is a number in \<open>[1, 60]\<close>, and it is an integer
  whenever that argument is. When the argument of the last call is NaN, \<open>getFps()\<close>
  is NaN.
\<close>

theorem C5_setFps_clamps:
  "fs \<noteq> [] \<Longrightarrow>
     (last fs = NaN \<longrightarrow> getFps (fold (\<lambda>f l. setFps l f) fs l) = NaN) \<and>
     (last fs \<noteq> NaN \<longrightarrow>
        (\<exists>v. getFps (fold (\<lambda>f l. setFps l f) fs l) = Finite v \<and> 1 \<le> v \<and> v \<le> 60 \<and>
             (\<forall>a. last fs = Finite a \<and> a \<in> \<int> \<longrightarrow> v \<in> \<int>)))"
proof (induction fs rule: rev_induct)
  case Nil
  then show ?case by simp
next
  case (snoc f fs)
  show ?case
    using setFps_NaN [of "fold (\<lambda>f l. setFps l f) fs l"]
      setFps_clamped [of f "fold (\<lambda>f l. setFps l f) fs l"]
    by auto
qed

text \<open>
  Three calls, the last with the integer \<open>24\<close>, on a loop constructed with \<open>100\<close>; and
  two calls, the last with NaN.
\<close>

theorem C5_setFps_clamps_witness:
  "[Finite 100, Finite (5 / 2), Finite 24] \<noteq> [] \<and>
   last [Finite 100, Finite (5 / 2), Finite 24] \<noteq> NaN \<and>
   getFps (fold (\<lambda>f l. setFps l f) [Finite 100, Finite (5 / 2), Finite 24]
             (AnimationLoop_new (Some (Finite 100)))) = Finite 24 \<and>
   (1 :: real) \<le> 24 \<and> (24 :: real) \<le> 60 \<and> (24 :: real) \<in> \<int> \<and>
   last [Finite 24, NaN] = NaN \<and>
   getFps (fold (\<lambda>f l. setFps l f) [Finite 24, NaN] (AnimationLoop_new None)) = NaN"
proof -
  let ?fs = "[Finite 100, Finite (5 / 2), Finite 24]"
  let ?l = "AnimationLoop_new (Some (Finite 100))"
  have ne: "?fs \<noteq> []" and la: "last ?fs \<noteq> NaN" by simp_all
  from C5_setFps_clamps [OF ne, of ?l] la
  obtain v where v: "getFps (fold (\<lambda>f l. setFps l f) ?fs ?l) = Finite v"
    and r: "1 \<le> v" "v \<le> 60" and i: "\<forall>a. last ?fs = Finite a \<and> a \<in> \<int> \<longrightarrow> v \<in> \<int>"
    by blast
  have e: "getFps (fold (\<lambda>f l. setFps l f) ?fs ?l) = Finite 24"
    by (simp add: getFps_def setFps_def)
  with v have v24: "v = 24" by simp
  have n2: "[Finite 24, NaN] \<noteq> []" and l2: "last [Finite 24, NaN] = NaN" by simp_all
  from C5_setFps_clamps [OF n2, of "AnimationLoop_new None"] l2
  have n: "getFps (fold (\<lambda>f l. setFps l f) [Finite 24, NaN] (AnimationLoop_new None)) = NaN"
    by blast
  show ?thesis using ne la e r i n l2 unfolding v24 by simp
qed

section \<open>The seed hash at a one-letter text\<close>

text \<open>
  Claim C6 describes \<open>seedFromText\<close> as 32-bit FNV-1a with a wrapping 32-bit multiply.
  The product \<open>hash * 0x01000193\<close> is a double product: beyond \<open>2^53\<close> it is rounded
  before \<open>| 0\<close> keeps its low 32 bits. On the text \<open>b\<close> the function returns
  \<open>418632220\<close>, where the wrapping multiply gives \<open>418632219\<close>.
\<close>

theorem C6_seedFromText_low_bits:
  "seedFromText (js ''b'') = 418632220 \<and> seedFromText_spec (js ''b'') = 418632219"
  by code_simp

section \<open>fpsFromTempo\<close>

text \<open>
  Claim C9. \<open>fpsFromTempo(tempo, baseFps)\<close> is \<open>round(baseFps * m)\<close> with \<open>m\<close> being
  \<open>0.3\<close> for frozen, \<open>0.6\<close> for slow, \<open>1.0\<close> for medium, \<open>1.5\<close> for fast and \<open>2.2\<close> for
  frantic; at base rate \<open>10\<close> medium gives \<open>10\<close>, frantic \<open>22\<close> and frozen \<open>3\<close>.
\<close>

theorem C9_fpsFromTempo:
  "fpsFromTempo (Tempo_value Tempo_Frozen) baseFps = round (baseFps * 0.3) \<and>
   fpsFromTempo (Tempo_value Tempo_Slow) baseFps = round (baseFps * 0.6) \<and>
   fpsFromTempo (Tempo_value Tempo_Medium) baseFps = round (baseFps * 1.0) \<and>
   fpsFromTempo (Tempo_value Tempo_Fast) baseFps = round (baseFps * 1.5) \<and>
   fpsFromTempo (Tempo_value Tempo_Frantic) baseFps = round (baseFps * 2.2) \<and>
   fpsFromTempo ''medium'' 10 = 10 \<and>
   fpsFromTempo ''frantic'' 10 = 22 \<and>
   fpsFromTempo ''frozen'' 10 = 3"
  by (simp add: fpsFromTempo_def multipliers_def round_def)

section \<open>Renderer: frames\<close>

lemma clear_determined:
  assumes "width g1 = width g2" "height g1 = height g2"
    "length (cells g1) = length (cells g2)"
    "length (fgColors g1) = length (fgColors g2)"
    "length (bgColors g1) = length (bgColors g2)"
  shows "clear g1 ca fa ba = clear g2 ca fa ba"
  using assms
  by (cases g1, cases g2) (simp add: clear_def arrayFill_def map_replicate_const)

lemma wellFormed_same_lengths:
  assumes "wellFormed g1" "wellFormed g2" "width g1 = width g2" "height g1 = height g2"
  shows "length (cells g1) = length (cells g2) \<and>
         length (fgColors g1) = length (fgColors g2) \<and>
         length (bgColors g1) = length (bgColors g2)"
  using assms by (simp add: wellFormed_def)

text \<open>
  \<open>renderFrame\<close> clears before it draws: on renderers with the same layers and
  constructed grids of equal width and height, what the grids held before does not
  show in the frame.
\<close>

lemma renderFrame_ignores_old_contents:
  assumes "wellFormed (grid r1)" and "wellFormed (grid r2)"
    and "width (grid r1) = width (grid r2)" and "height (grid r1) = height (grid r2)"
    and "layers r1 = layers r2"
  shows "fst (renderFrame r1 spec time seed deltaTime) = fst (renderFrame r2 spec time seed deltaTime)"
proof -
  from wellFormed_same_lengths [OF assms(1-4)]
  have "clear (grid r1) None None None = clear (grid r2) None None None"
    by (intro clear_determined assms(3,4)) simp_all
  with assms(5) show ?thesis by (simp add: renderFrame_def Let_def)
qed

lemma getStrength_values:
  "getStrength (Distortion_value Distortion_None) = 0"
  "getStrength (Distortion_value Distortion_Low) = 0.25"
  "getStrength (Distortion_value Distortion_Medium) = 0.5"
  "getStrength (Distortion_value Distortion_High) = 0.75"
  "getStrength (Distortion_value Distortion_Extreme) = 1"
  by (simp_all add: getStrength_def strengthMap_def)

lemma DistortionLayer_apply_noop:
  "getStrength (Distortion_value (distortion spec)) \<le> 0 \<Longrightarrow>
     DistortionLayer_apply g spec time seed deltaTime = g"
  by (simp add: DistortionLayer_apply_def)

text \<open>
  Claim C2. At a strength of \<open>0\<close> or less \<open>DistortionLayer.apply\<close> returns the grid as it
  got it. Severity \<open>none\<close> maps to strength \<open>0\<close>, so with the full layer stack
  \<open>renderFrame\<close> yields the grid that the art and noise layers alone produce.
\<close>

theorem C2_distortion_none:
  "(getStrength (Distortion_value (distortion spec)) \<le> 0 \<longrightarrow>
      DistortionLayer_apply g spec time seed deltaTime = g) \<and>
   (distortion spec = Distortion_None \<and> layers r = [AsciiArtLayer, NoiseLayer, DistortionLayer] \<longrightarrow>
      getStrength (Distortion_value (distortion spec)) = 0 \<and>
      fst (renderFrame r spec time seed deltaTime) =
        fst (renderFrame (r\<lparr>layers := [AsciiArtLayer, NoiseLayer]\<rparr>) spec time seed deltaTime) \<and>
      fst (renderFrame r spec time seed deltaTime) =
        NoiseLayer_apply
          (AsciiArtLayer_apply (clear (grid r) None None None) spec time seed deltaTime)
          spec time seed deltaTime)"
  by (simp add: DistortionLayer_apply_noop getStrength_def strengthMap_def renderFrame_def Let_def)

text \<open>The sample scene, whose severity is \<open>none\<close>, on the sample renderer.\<close>

theorem C2_distortion_none_witness:
  "getStrength (Distortion_value (distortion sampleSpec)) \<le> 0 \<and>
   DistortionLayer_apply sampleGrid sampleSpec 1 42 (1 / 10) = sampleGrid \<and>
   distortion sampleSpec = Distortion_None \<and>
   layers sampleRenderer = [AsciiArtLayer, NoiseLayer, DistortionLayer] \<and>
   fst (renderFrame sampleRenderer sampleSpec 1 42 (1 / 10)) =
     fst (renderFrame (sampleRenderer\<lparr>layers := [AsciiArtLayer, NoiseLayer]\<rparr>)
            sampleSpec 1 42 (1 / 10))"
proof -
  have d: "distortion sampleSpec = Distortion_None" by (simp add: sampleSpec_def)
  have s: "getStrength (Distortion_value (distortion sampleSpec)) \<le> 0"
    by (simp add: d getStrength_def strengthMap_def)
  have l: "layers sampleRenderer = [AsciiArtLayer, NoiseLayer, DistortionLayer]"
    by (simp add: sampleRenderer_def)
  from C2_distortion_none [of sampleSpec sampleGrid 1 42 "1 / 10" sampleRenderer] d s l
  show ?thesis by blast
qed

section \<open>Invariants of a frame\<close>

lemma set_arraySet: "set (arraySet xs i v) \<subseteq> insert (Some v) (insert None (set xs))"
proof (cases "i < 0")
  case True
  then show ?thesis by (auto simp add: arraySet_def)
next
  case False
  show ?thesis
  proof (cases "i < int (length xs)")
    case True
    with False have "arraySet xs i v = xs[nat i := Some v]" by (simp add: arraySet_def)
    then show ?thesis using set_update_subset_insert [of xs "nat i" "Some v"] by auto
  next
    case f: False
    with False have "arraySet xs i v = xs @ replicate (nat i - length xs) None @ [Some v]"
      by (simp add: arraySet_def)
    then show ?thesis by auto
  qed
qed

lemma coloured_setCell:
  assumes "coloured g"
  shows "coloured (setCell g x y ch fa ba)"
proof (cases "inBounds g x y")
  case False
  with assms show ?thesis by (simp add: setCell_out)
next
  case True
  have f: "truthy fa \<Longrightarrow> Some [] \<notin> set (arraySet (fgColors g) (index g x y) (the fa))"
    using set_arraySet [of "fgColors g" "index g x y" "the fa"] assms
    by (auto simp add: coloured_def truthy_def split: option.splits)
  have b: "truthy ba \<Longrightarrow> Some [] \<notin> set (arraySet (bgColors g) (index g x y) (the ba))"
    using set_arraySet [of "bgColors g" "index g x y" "the ba"] assms
    by (auto simp add: coloured_def truthy_def split: option.splits)
  show ?thesis
    unfolding coloured_def setCell_fgColors [OF True] setCell_bgColors [OF True]
    using f b assms by (simp add: coloured_def)
qed

lemma coloured_clear: "coloured (clear g chArg None None)"
  by (auto simp add: coloured_def clear_def arrayFill_def js_def)

text \<open>Every layer changes the grid through \<open>setCell\<close> only: what \<open>setCell\<close> preserves, a layer
  preserves.\<close>

lemma AsciiArtLayer_preserves:
  assumes S: "\<And>g x y ch fa ba. P g \<Longrightarrow> P (setCell g x y ch fa ba)" and g: "P g"
  shows "P (AsciiArtLayer_apply g spec time seed deltaTime)"
proof -
  have ch: "\<And>t pal aw ah ox oy mo chars row col.
      P t \<Longrightarrow> P (drawArtChar t pal time seed aw ah ox oy mo chars row col)"
    using S by (auto simp add: drawArtChar_def Let_def split: option.splits)
  have row: "\<And>t art pal aw ah ox oy mo row.
      P t \<Longrightarrow> P (drawArtRow t art pal time seed aw ah ox oy mo row)"
  proof -
    fix t :: Grid and art pal aw ah ox oy mo row assume t: "P t"
    show "P (drawArtRow t art pal time seed aw ah ox oy mo row)"
    proof (cases "listGet art row")
      case None
      with t show ?thesis by (simp add: drawArtRow_def)
    next
      case (Some line)
      have "P (fold (\<lambda>col g. drawArtChar g pal time seed aw ah ox oy mo (spread line) row col)
                 [0..int (length (spread line)) - 1] t)"
        by (rule fold_invariant [where P = P]) (use t ch in simp_all)
      with Some t show ?thesis by (simp add: drawArtRow_def Let_def)
    qed
  qed
  have step: "\<And>t artChars pal ox oy aw ah i.
      P t \<Longrightarrow> P (echoStep t spec artChars time seed pal ox oy aw ah i)"
    using S by (auto simp add: echoStep_def Let_def split: prod.splits)
  have echoes: "\<And>t art pal ox oy aw ah.
      P t \<Longrightarrow> P (drawAmbientEchoes t spec art time seed pal ox oy aw ah)"
  proof -
    fix t :: Grid and art pal ox oy aw ah assume t: "P t"
    have "P (fold (\<lambda>i g. echoStep g spec (collectArtChars art) time seed pal ox oy aw ah i)
               [0..\<lfloor>8 + density spec * 20\<rfloor> - 1] t)"
      by (rule fold_invariant [where P = P]) (use t step in simp_all)
    with t show "P (drawAmbientEchoes t spec art time seed pal ox oy aw ah)"
      by (simp add: drawAmbientEchoes_def Let_def)
  qed
  show ?thesis
  proof (cases "length (asciiArt spec) = 0")
    case True
    with g show ?thesis by (simp add: AsciiArtLayer_apply_def)
  next
    case False
    have "P (fold (\<lambda>row t. drawArtRow t (asciiArt spec) (getPalette spec) time seed
                      (maxLineLength (asciiArt spec)) (int (length (asciiArt spec)))
                      \<lfloor>real_of_int (width g - maxLineLength (asciiArt spec)) / 2\<rfloor>
                      \<lfloor>real_of_int (height g - int (length (asciiArt spec))) / 2\<rfloor>
                      (getMotionOffset (motion spec) time seed) row)
               [0..int (length (asciiArt spec)) - 1] g)"
      by (rule fold_invariant [where P = P]) (use g row in simp_all)
    from echoes [OF this] False show ?thesis
      by (simp add: AsciiArtLayer_apply_def Let_def)
  qed
qed

lemma NoiseLayer_preserves:
  assumes S: "\<And>g x y ch fa ba. P g \<Longrightarrow> P (setCell g x y ch fa ba)" and g: "P g"
  shows "P (NoiseLayer_apply g spec time seed deltaTime)"
proof -
  have cell: "\<And>t ns ts tint x y. P t \<Longrightarrow> P (noiseCell t ns ts tint time seed x y)"
    using S by (auto simp add: noiseCell_def Let_def split: prod.splits)
  show ?thesis
    unfolding NoiseLayer_apply_def Let_def
    by (rule fold_invariant [where P = P], rule g, rule fold_invariant [where P = P])
       (use cell in simp_all)
qed

lemma DistortionLayer_preserves:
  assumes S: "\<And>g x y ch fa ba. P g \<Longrightarrow> P (setCell g x y ch fa ba)" and g: "P g"
  shows "P (DistortionLayer_apply g spec time seed deltaTime)"
proof -
  have wc: "\<And>t snap k x y. P t \<Longrightarrow> P (warpCell snap t spec time seed k x y)"
    using S by (auto simp add: warpCell_def Let_def split: prod.splits option.splits)
  have gc: "\<And>t rate x y. P t \<Longrightarrow> P (glitchCell t time seed rate x y)"
    using S by (auto simp add: glitchCell_def Let_def)
  have w: "\<And>k. P (warp g spec time seed k)"
    unfolding warp_def Let_def
    by (rule fold_invariant [where P = P], rule g, rule fold_invariant [where P = P])
       (use wc in simp_all)
  have gl: "\<And>t k. P t \<Longrightarrow> P (applyCharacterGlitch t time seed k)"
    unfolding applyCharacterGlitch_def Let_def
    by (rule fold_invariant [where P = P], assumption, rule fold_invariant [where P = P])
       (use gc in simp_all)
  show ?thesis using g w gl by (simp add: DistortionLayer_apply_def Let_def)
qed

lemma RenderLayer_preserves:
  assumes S: "\<And>g x y ch fa ba. P g \<Longrightarrow> P (setCell g x y ch fa ba)" and g: "P g"
  shows "P (RenderLayer_apply layer g spec time seed deltaTime)"
  using AsciiArtLayer_preserves [of P, OF S g] NoiseLayer_preserves [of P, OF S g]
    DistortionLayer_preserves [of P, OF S g]
  by (cases layer) simp_all

text \<open>A frame leaves a constructed grid constructed, with no empty colour in it; so does
  every layer on the way, and the distortion layer always gets such a grid.\<close>

lemma renderFrame_invariant:
  assumes "wellFormed (grid r)"
  shows "wellFormed (fst (renderFrame r spec time seed deltaTime)) \<and>
         coloured (fst (renderFrame r spec time seed deltaTime)) \<and>
         grid (snd (renderFrame r spec time seed deltaTime)) = fst (renderFrame r spec time seed deltaTime)"
proof -
  let ?P = "\<lambda>g. wellFormed g \<and> coloured g"
  have S: "\<And>g x y ch fa ba. ?P g \<Longrightarrow> ?P (setCell g x y ch fa ba)"
    by (simp add: wellFormed_setCell coloured_setCell)
  have c: "?P (clear (grid r) None None None)"
    using assms by (simp add: wellFormed_clear coloured_clear)
  have "?P (fold (\<lambda>layer g'. RenderLayer_apply layer g' spec time seed deltaTime) (layers r)
             (clear (grid r) None None None))"
    by (rule fold_invariant [where P = ?P], rule c)
       (rule RenderLayer_preserves [where P = ?P], rule S, assumption+)
  then show ?thesis by (simp add: renderFrame_def Let_def)
qed

text \<open>
  The grid that the distortion layer receives in a frame of the default renderer: the
  cleared grid after the art and noise layers. No stored colour of it is empty.
\<close>

lemma distortion_input_coloured:
  "coloured (NoiseLayer_apply
               (AsciiArtLayer_apply (clear g None None None) spec time seed deltaTime)
               spec time seed deltaTime)"
  by (intro NoiseLayer_preserves [where P = coloured] AsciiArtLayer_preserves [where P = coloured]
        coloured_setCell coloured_clear)

section \<open>Loops that paint one cell per step\<close>

text \<open>
  The displacement loops and the glitch loops visit every cell once and write, if at
  all, to the cell they visit, with content that does not depend on the grid they
  write to. For such loops the cell read afterwards is the one written, or the old one.
\<close>

lemma inBounds_dims:
  "width g1 = width g2 \<Longrightarrow> height g1 = height g2 \<Longrightarrow> inBounds g1 x y = inBounds g2 x y"
  by (simp add: inBounds_def)

lemma getCell_setCell_cong:
  assumes "width g1 = width g2" "height g1 = height g2" "getCell g1 x y = getCell g2 x y"
  shows "getCell (setCell g1 x y ch fa ba) x y = getCell (setCell g2 x y ch fa ba) x y"
  using assms inBounds_dims [OF assms(1,2), of x y] by (simp add: getCell_setCell)

lemma paint_step_dims:
  assumes "F = (case p of None \<Rightarrow> g | Some (c, fa, ba) \<Rightarrow> setCell g x y c fa ba)"
  shows "width F = width g \<and> height F = height g"
  using assms by (cases p) auto

lemma paint_row_dims:
  fixes W :: "int \<Rightarrow> paint option"
  assumes F: "\<And>g x. width g = w \<Longrightarrow> height g = h \<Longrightarrow>
                F g x = (case W x of None \<Rightarrow> g | Some (c, fa, ba) \<Rightarrow> setCell g x y c fa ba)"
    and "width g = w" "height g = h"
  shows "width (fold (\<lambda>x g'. F g' x) xs g) = w \<and> height (fold (\<lambda>x g'. F g' x) xs g) = h"
proof (rule fold_invariant [where P = "\<lambda>g. width g = w \<and> height g = h"])
  show "width g = w \<and> height g = h" using assms(2,3) by simp
next
  fix x and t :: Grid assume t: "width t = w \<and> height t = h"
  then have "F t x = (case W x of None \<Rightarrow> t | Some (c, fa, ba) \<Rightarrow> setCell t x y c fa ba)"
    using F by simp
  from paint_step_dims [OF this] t show "width (F t x) = w \<and> height (F t x) = h" by simp
qed

lemma paint_row_cell:
  fixes W :: "int \<Rightarrow> paint option"
  assumes F: "\<And>g x. width g = w \<Longrightarrow> height g = h \<Longrightarrow>
                F g x = (case W x of None \<Rightarrow> g | Some (c, fa, ba) \<Rightarrow> setCell g x y c fa ba)"
  shows "distinct xs \<Longrightarrow> width g = w \<Longrightarrow> height g = h \<Longrightarrow>
     getCell (fold (\<lambda>x g'. F g' x) xs g) x' y' =
       (if y' = y \<and> x' \<in> set xs then
          (case W x' of None \<Rightarrow> getCell g x' y'
           | Some (c, fa, ba) \<Rightarrow> getCell (setCell g x' y c fa ba) x' y')
        else getCell g x' y')"
proof (induction xs arbitrary: g)
  case Nil
  then show ?case by simp
next
  case (Cons a xs)
  let ?g1 = "F g a"
  have g1: "?g1 = (case W a of None \<Rightarrow> g | Some (c, fa, ba) \<Rightarrow> setCell g a y c fa ba)"
    using F Cons.prems by simp
  from paint_step_dims [OF g1] Cons.prems
  have dims: "width ?g1 = w" "height ?g1 = h" by simp_all
  have other: "(x', y') \<noteq> (a, y) \<Longrightarrow> getCell ?g1 x' y' = getCell g x' y'"
    unfolding g1 by (cases "W a") (auto simp add: getCell_setCell_other)
  from Cons.prems have d: "distinct xs" and a: "a \<notin> set xs" by simp_all
  have IH: "getCell (fold (\<lambda>x g'. F g' x) xs ?g1) x' y' =
       (if y' = y \<and> x' \<in> set xs then
          (case W x' of None \<Rightarrow> getCell ?g1 x' y'
           | Some (c, fa, ba) \<Rightarrow> getCell (setCell ?g1 x' y c fa ba) x' y')
        else getCell ?g1 x' y')"
    by (rule Cons.IH [OF d dims])
  show ?case
  proof (cases "y' = y \<and> x' = a")
    case True
    then have xa: "x' = a" and ya: "y' = y" by simp_all
    from a IH have "getCell (fold (\<lambda>x g'. F g' x) xs ?g1) x' y' = getCell ?g1 a y"
      unfolding xa ya by simp
    also have "\<dots> = (case W a of None \<Rightarrow> getCell g a y
           | Some (c, fa, ba) \<Rightarrow> getCell (setCell g a y c fa ba) a y)"
      unfolding g1 by (cases "W a") auto
    finally show ?thesis unfolding xa ya by simp
  next
    case False
    then have ne: "(x', y') \<noteq> (a, y)" by auto
    note o = other [OF ne]
    show ?thesis
    proof (cases "y' = y \<and> x' \<in> set xs")
      case True
      then have y: "y' = y" by simp
      have c: "\<And>c fa ba. getCell (setCell ?g1 x' y c fa ba) x' y = getCell (setCell g x' y c fa ba) x' y"
        using getCell_setCell_cong [of ?g1 g x' y] dims Cons.prems(2,3) o y by simp
      show ?thesis using True IH o c by (simp split: option.splits)
    next
      case f: False
      with False have n: "\<not> (y' = y \<and> x' \<in> set (a # xs))" by auto
      have "getCell (fold (\<lambda>x g'. F g' x) xs ?g1) x' y' = getCell ?g1 x' y'"
        unfolding IH by (simp only: f if_False)
      with o have "getCell (fold (\<lambda>x g'. F g' x) (a # xs) g) x' y' = getCell g x' y'"
        by simp
      then show ?thesis by (simp only: n if_False)
    qed
  qed
qed

lemma paint_grid_dims:
  fixes W :: "int \<Rightarrow> int \<Rightarrow> paint option"
  assumes F: "\<And>g x y. width g = w \<Longrightarrow> height g = h \<Longrightarrow>
                F g x y = (case W x y of None \<Rightarrow> g | Some (c, fa, ba) \<Rightarrow> setCell g x y c fa ba)"
    and "width g = w" "height g = h"
  shows "width (fold (\<lambda>y g'. fold (\<lambda>x g''. F g'' x y) [0..width g' - 1] g') ys g) = w \<and>
         height (fold (\<lambda>y g'. fold (\<lambda>x g''. F g'' x y) [0..width g' - 1] g') ys g) = h"
proof (rule fold_invariant [where P = "\<lambda>g. width g = w \<and> height g = h"])
  show "width g = w \<and> height g = h" using assms(2,3) by simp
next
  fix y and t :: Grid assume t: "width t = w \<and> height t = h"
  show "width (fold (\<lambda>x g''. F g'' x y) [0..width t - 1] t) = w \<and>
        height (fold (\<lambda>x g''. F g'' x y) [0..width t - 1] t) = h"
    by (rule paint_row_dims [where W = "\<lambda>x. W x y" and y = y]) (use F t in simp_all)
qed

lemma paint_grid_cell:
  fixes W :: "int \<Rightarrow> int \<Rightarrow> paint option"
  assumes F: "\<And>g x y. width g = w \<Longrightarrow> height g = h \<Longrightarrow>
                F g x y = (case W x y of None \<Rightarrow> g | Some (c, fa, ba) \<Rightarrow> setCell g x y c fa ba)"
  shows "distinct ys \<Longrightarrow> width g = w \<Longrightarrow> height g = h \<Longrightarrow>
     getCell (fold (\<lambda>y g'. fold (\<lambda>x g''. F g'' x y) [0..width g' - 1] g') ys g) x' y' =
       (if y' \<in> set ys \<and> 0 \<le> x' \<and> x' < w then
          (case W x' y' of None \<Rightarrow> getCell g x' y'
           | Some (c, fa, ba) \<Rightarrow> getCell (setCell g x' y' c fa ba) x' y')
        else getCell g x' y')"
proof (induction ys arbitrary: g)
  case Nil
  then show ?case by simp
next
  case (Cons a ys)
  let ?row = "\<lambda>y g'. fold (\<lambda>x g''. F g'' x y) [0..width g' - 1] g'"
  let ?g1 = "?row a g"
  have Frow: "\<And>g x. width g = w \<Longrightarrow> height g = h \<Longrightarrow>
      F g x a = (case W x a of None \<Rightarrow> g | Some (c, fa, ba) \<Rightarrow> setCell g x a c fa ba)"
    using F by simp
  have dims: "width ?g1 = w" "height ?g1 = h"
    using paint_row_dims [where F = "\<lambda>g x. F g x a" and W = "\<lambda>x. W x a", OF Frow Cons.prems(2,3)]
    by simp_all
  have row: "getCell ?g1 x' y' =
       (if y' = a \<and> x' \<in> set [0..w - 1] then
          (case W x' a of None \<Rightarrow> getCell g x' y'
           | Some (c, fa, ba) \<Rightarrow> getCell (setCell g x' a c fa ba) x' y')
        else getCell g x' y')"
    using paint_row_cell [where F = "\<lambda>g x. F g x a" and W = "\<lambda>x. W x a" and xs = "[0..w - 1]",
        OF Frow _ Cons.prems(2,3)] Cons.prems(2)
    by simp
  from Cons.prems have d: "distinct ys" and a: "a \<notin> set ys" by simp_all
  have IH: "getCell (fold ?row ys ?g1) x' y' =
       (if y' \<in> set ys \<and> 0 \<le> x' \<and> x' < w then
          (case W x' y' of None \<Rightarrow> getCell ?g1 x' y'
           | Some (c, fa, ba) \<Rightarrow> getCell (setCell ?g1 x' y' c fa ba) x' y')
        else getCell ?g1 x' y')"
    by (rule Cons.IH [OF d dims])
  show ?case
  proof (cases "y' = a")
    case True
    with a IH have "getCell (fold ?row ys ?g1) x' y' = getCell ?g1 x' y'" by simp
    with row show ?thesis unfolding True by auto
  next
    case False
    with row have o: "getCell ?g1 x' y' = getCell g x' y'" by simp
    have c: "\<And>c fa ba. getCell (setCell ?g1 x' y' c fa ba) x' y' = getCell (setCell g x' y' c fa ba) x' y'"
      using getCell_setCell_cong [of ?g1 g x' y'] dims Cons.prems(2,3) o by simp
    show ?thesis using False IH o c by (simp split: option.splits)
  qed
qed

section \<open>DistortionLayer: the displacement and glitch passes\<close>

lemma concat_uniform_nth:
  "\<forall>r \<in> set rows. length r = n \<Longrightarrow> k < length rows \<Longrightarrow> j < n \<Longrightarrow>
     k * n + j < length (concat rows) \<and> concat rows ! (k * n + j) = rows ! k ! j"
proof (induction rows arbitrary: k)
  case Nil
  then show ?case by simp
next
  case (Cons r rows)
  then have lr: "length r = n" by simp
  show ?case
  proof (cases k)
    case 0
    with Cons.prems lr show ?thesis by (simp add: nth_append)
  next
    case (Suc k')
    with Cons.prems have "k' < length rows" and all: "\<forall>r \<in> set rows. length r = n" by simp_all
    from Cons.IH [OF all this(1) Cons.prems(3)]
    have "k' * n + j < length (concat rows)" "concat rows ! (k' * n + j) = rows ! k' ! j"
      by simp_all
    with Suc lr show ?thesis by (simp add: nth_append)
  qed
qed

lemma listGet_takeSnapshot:
  assumes b: "inBounds g sx sy"
  shows "listGet (takeSnapshot g) (sy * width g + sx) = Some (getCell g sx sy)"
proof -
  let ?rows = "map (\<lambda>y. map (\<lambda>x. getCell g x y) [0..width g - 1]) [0..height g - 1]"
  from b have x: "0 \<le> sx" "sx < width g" and y: "0 \<le> sy" "sy < height g"
    by (simp_all add: inBounds_def)
  have all: "\<forall>r \<in> set ?rows. length r = nat (width g)" by auto
  have k: "nat sy < length ?rows" using y by simp
  have j: "nat sx < nat (width g)" using x by simp
  from concat_uniform_nth [OF all k j]
  have l: "nat sy * nat (width g) + nat sx < length (concat ?rows)"
    and v: "concat ?rows ! (nat sy * nat (width g) + nat sx) = ?rows ! nat sy ! nat sx"
    by simp_all
  have i: "nat (sy * width g + sx) = nat sy * nat (width g) + nat sx"
    using x y by (simp add: nat_add_distrib nat_mult_distrib)
  have nn: "0 \<le> sy * width g + sx" using x y by simp
  have cell: "?rows ! nat sy ! nat sx = getCell g sx sy"
    using x y by simp
  show ?thesis
    unfolding takeSnapshot_def listGet_def using l v i nn cell by simp
qed

lemma warpSource_dims:
  "width g' = width g \<Longrightarrow> height g' = height g \<Longrightarrow>
     warpSource g' spec time seed k x y = warpSource g spec time seed k x y"
  by (simp add: warpSource_def)

lemma warpCell_paint:
  assumes "width g' = width g" "height g' = height g"
  shows "warpCell (takeSnapshot g) g' spec time seed k x y =
     (case (let (sx, sy) = warpSource g spec time seed k x y in
            if inBounds g sx sy
            then Some (char (getCell g sx sy), Some (fg (getCell g sx sy)), Some (bg (getCell g sx sy)))
            else None) of
        None \<Rightarrow> g'
      | Some (c, fa, ba) \<Rightarrow> setCell g' x y c fa ba)"
proof (cases "warpSource g spec time seed k x y")
  case (Pair sx sy)
  have src: "warpSource g' spec time seed k x y = (sx, sy)"
    using Pair warpSource_dims [OF assms] by simp
  show ?thesis
  proof (cases "inBounds g sx sy")
    case True
    then have r: "sx \<ge> 0 \<and> sx < width g' \<and> sy \<ge> 0 \<and> sy < height g'"
      using assms by (simp add: inBounds_def)
    have "warpCell (takeSnapshot g) g' spec time seed k x y =
        setCell g' x y (char (getCell g sx sy)) (Some (fg (getCell g sx sy)))
          (Some (bg (getCell g sx sy)))"
      unfolding warpCell_def src using r listGet_takeSnapshot [OF True] assms
      by (simp add: Let_def)
    with Pair True show ?thesis by simp
  next
    case False
    then have r: "\<not> (sx \<ge> 0 \<and> sx < width g' \<and> sy \<ge> 0 \<and> sy < height g')"
      using assms by (simp add: inBounds_def)
    have "warpCell (takeSnapshot g) g' spec time seed k x y = g'"
      unfolding warpCell_def src using r
      by (auto simp add: Let_def)
    with Pair False show ?thesis by simp
  qed
qed

lemma inBounds_upto:
  "inBounds g x y \<longleftrightarrow> (y \<in> set [0..height g - 1] \<and> 0 \<le> x \<and> x < width g)"
  by (auto simp add: inBounds_def)

lemma warp_dims:
  "width (warp g spec time seed k) = width g \<and> height (warp g spec time seed k) = height g"
  unfolding warp_def Let_def
  by (rule paint_grid_dims [where F = "\<lambda>g' x y. warpCell (takeSnapshot g) g' spec time seed k x y"])
     (simp_all add: warpCell_paint)

lemma warp_cell:
  assumes b: "inBounds g x y"
  shows "getCell (warp g spec time seed k) x y =
     (let (sx, sy) = warpSource g spec time seed k x y in
      if inBounds g sx sy
      then getCell (setCell g x y (char (getCell g sx sy)) (Some (fg (getCell g sx sy)))
                      (Some (bg (getCell g sx sy)))) x y
      else getCell g x y)"
proof -
  have "getCell (warp g spec time seed k) x y =
       (if y \<in> set [0..height g - 1] \<and> 0 \<le> x \<and> x < width g then
          (case (let (sx, sy) = warpSource g spec time seed k x y in
            if inBounds g sx sy
            then Some (char (getCell g sx sy), Some (fg (getCell g sx sy)), Some (bg (getCell g sx sy)))
            else None) of None \<Rightarrow> getCell g x y
           | Some (c, fa, ba) \<Rightarrow> getCell (setCell g x y c fa ba) x y)
        else getCell g x y)"
    unfolding warp_def Let_def
    by (rule paint_grid_cell [where F = "\<lambda>g' x y. warpCell (takeSnapshot g) g' spec time seed k x y"])
       (simp_all add: warpCell_paint)
  moreover from b have "y \<in> set [0..height g - 1] \<and> 0 \<le> x \<and> x < width g"
    by (simp add: inBounds_upto)
  ultimately have e: "getCell (warp g spec time seed k) x y =
          (case (let (sx, sy) = warpSource g spec time seed k x y in
            if inBounds g sx sy
            then Some (char (getCell g sx sy), Some (fg (getCell g sx sy)), Some (bg (getCell g sx sy)))
            else None) of None \<Rightarrow> getCell g x y
           | Some (c, fa, ba) \<Rightarrow> getCell (setCell g x y c fa ba) x y)"
    by simp
  obtain sx sy where p: "warpSource g spec time seed k x y = (sx, sy)"
    by (cases "warpSource g spec time seed k x y")
  show ?thesis unfolding e p by (cases "inBounds g sx sy") simp_all
qed

lemma coloured_getCell:
  assumes "coloured g"
  shows "fg (getCell g x y) \<noteq> [] \<and> bg (getCell g x y) \<noteq> []"
proof (cases "inBounds g x y")
  case False
  then show ?thesis by (simp add: getCell_out js_def)
next
  case True
  have m: "\<And>xs :: jsstring jsarray. Some [] \<notin> set xs \<Longrightarrow> arrayGet xs (index g x y) \<noteq> Some []"
  proof -
    fix xs :: "jsstring jsarray" assume n: "Some [] \<notin> set xs"
    show "arrayGet xs (index g x y) \<noteq> Some []"
    proof (cases "0 \<le> index g x y \<and> index g x y < int (length xs)")
      case True
      then have "nat (index g x y) < length xs" by (simp add: nat_less_iff)
      from nth_mem [OF this] n have "xs ! nat (index g x y) \<noteq> Some []" by auto
      with True show ?thesis by (simp add: arrayGet_def)
    next
      case False
      then have "arrayGet xs (index g x y) = None" unfolding arrayGet_def by auto
      then show ?thesis by simp
    qed
  qed
  have f: "arrayGet (fgColors g) (index g x y) \<noteq> Some []"
    using assms m by (simp add: coloured_def)
  have b: "arrayGet (bgColors g) (index g x y) \<noteq> Some []"
    using assms m by (simp add: coloured_def)
  show ?thesis using f b
    by (auto simp add: getCell_in [OF True] js_def split: option.splits)
qed

lemma setCell_copy:
  assumes "inBounds g x y" "fg c \<noteq> []" "bg c \<noteq> []"
  shows "getCell (setCell g x y (char c) (Some (fg c)) (Some (bg c))) x y = c"
  using assms by (simp add: getCell_setCell_same truthy_def)

lemma listGet_mem: "listGet xs i = Some v \<Longrightarrow> v \<in> set xs"
  by (auto simp add: listGet_def split: if_splits)

lemma glitchCell_paint:
  "glitchCell g' time seed rate x y =
     (case (let hash = sin (real_of_int x * 92.1 + real_of_int y * 301.7 + time * 50 + seed * 7.3)
                         * 43758.5;
                prob = hash - real_of_int \<lfloor>hash\<rfloor>
            in if prob < rate then
                 (let ci = \<lfloor>prob * 100\<rfloor> mod int (length glitchChars);
                      glitchChar = (case listGet glitchChars ci of
                                      Some c \<Rightarrow> Some c | None \<Rightarrow> listGet glitchChars 0)
                  in if truthy glitchChar
                     then Some (the glitchChar, Some (js ''#ff3366''), None)
                     else None)
               else None) of
        None \<Rightarrow> g'
      | Some (c, fa, ba) \<Rightarrow> setCell g' x y c fa ba)"
  by (simp add: glitchCell_def Let_def)

lemma glitch_dims:
  "width (applyCharacterGlitch g time seed k) = width g \<and>
   height (applyCharacterGlitch g time seed k) = height g"
  unfolding applyCharacterGlitch_def Let_def
  by (rule paint_grid_dims [where F = "\<lambda>g' x y. glitchCell g' time seed ((k - 0.7) * 0.15) x y"])
     (simp_all add: glitchCell_paint)

lemma glitch_cell:
  "getCell (applyCharacterGlitch g time seed k) x y = getCell g x y \<or>
   (char (getCell (applyCharacterGlitch g time seed k) x y) \<in> set glitchChars \<and>
    fg (getCell (applyCharacterGlitch g time seed k) x y) = js ''#ff3366'' \<and>
    bg (getCell (applyCharacterGlitch g time seed k) x y) = bg (getCell g x y))"
proof -
  define W :: "int \<Rightarrow> int \<Rightarrow> paint option" where
    "W = (\<lambda>x y. (let hash = sin (real_of_int x * 92.1 + real_of_int y * 301.7 + time * 50 + seed * 7.3)
                         * 43758.5;
                prob = hash - real_of_int \<lfloor>hash\<rfloor>
            in if prob < (k - 0.7) * 0.15 then
                 (let ci = \<lfloor>prob * 100\<rfloor> mod int (length glitchChars);
                      glitchChar = (case listGet glitchChars ci of
                                      Some c \<Rightarrow> Some c | None \<Rightarrow> listGet glitchChars 0)
                  in if truthy glitchChar
                     then Some (the glitchChar, Some (js ''#ff3366''), None)
                     else None)
               else None))"
  have F: "\<And>g' x y. glitchCell g' time seed ((k - 0.7) * 0.15) x y =
      (case W x y of None \<Rightarrow> g' | Some (c, fa, ba) \<Rightarrow> setCell g' x y c fa ba)"
    unfolding W_def by (rule glitchCell_paint)
  have e: "getCell (applyCharacterGlitch g time seed k) x y =
       (if y \<in> set [0..height g - 1] \<and> 0 \<le> x \<and> x < width g then
          (case W x y of None \<Rightarrow> getCell g x y
           | Some (c, fa, ba) \<Rightarrow> getCell (setCell g x y c fa ba) x y)
        else getCell g x y)"
    unfolding applyCharacterGlitch_def Let_def
    by (rule paint_grid_cell [where F = "\<lambda>g' x y. glitchCell g' time seed ((k - 0.7) * 0.15) x y"])
       (rule F, simp_all)
  have Wp: "\<And>c fa ba. W x y = Some (c, fa, ba) \<Longrightarrow>
      c \<in> set glitchChars \<and> fa = Some (js ''#ff3366'') \<and> ba = None"
    unfolding W_def
    by (auto simp add: Let_def truthy_def split: if_splits option.splits dest: listGet_mem)
  show ?thesis
  proof (cases "inBounds g x y")
    case False
    then have "\<not> (y \<in> set [0..height g - 1] \<and> 0 \<le> x \<and> x < width g)"
      by (simp add: inBounds_upto)
    with e have "getCell (applyCharacterGlitch g time seed k) x y = getCell g x y"
      by auto
    then show ?thesis by simp
  next
    case True
    then have "y \<in> set [0..height g - 1] \<and> 0 \<le> x \<and> x < width g"
      by (simp add: inBounds_upto)
    with e have e': "getCell (applyCharacterGlitch g time seed k) x y =
          (case W x y of None \<Rightarrow> getCell g x y
           | Some (c, fa, ba) \<Rightarrow> getCell (setCell g x y c fa ba) x y)"
      by simp
    show ?thesis
    proof (cases "W x y")
      case None
      show ?thesis unfolding e' None by simp
    next
      case (Some p)
      obtain c fa ba where p: "p = (c, fa, ba)" by (cases p)
      from Wp [OF Some [unfolded p]]
      have c: "c \<in> set glitchChars" "fa = Some (js ''#ff3366'')" "ba = None"
        by simp_all
      have "getCell (applyCharacterGlitch g time seed k) x y =
          getCell (setCell g x y c fa ba) x y"
        unfolding e' Some p by simp
      with True c show ?thesis
        by (simp add: getCell_setCell_same truthy_def js_def)
    qed
  qed
qed

lemma apply_low:
  "0 < getStrength (Distortion_value (distortion spec)) \<Longrightarrow>
   getStrength (Distortion_value (distortion spec)) < 0.7 \<Longrightarrow>
     DistortionLayer_apply g spec time seed deltaTime =
       warp g spec time seed (getStrength (Distortion_value (distortion spec)))"
  by (simp add: DistortionLayer_apply_def Let_def)

lemma apply_high:
  "0.7 \<le> getStrength (Distortion_value (distortion spec)) \<Longrightarrow>
     DistortionLayer_apply g spec time seed deltaTime =
       applyCharacterGlitch (warp g spec time seed (getStrength (Distortion_value (distortion spec))))
         time seed (getStrength (Distortion_value (distortion spec)))"
  by (simp add: DistortionLayer_apply_def Let_def)

text \<open>
  Claim C7. Let the strength be positive and no stored colour of the grid be the empty
  string, as on every grid that a frame hands to the layer (\<open>distortion_input_coloured\<close>)
  and on every grid cleared with the default colours and drawn by \<open>setCell\<close>. After the
  snapshot and displacement loops of \<open>apply\<close>, a cell \<open>(x, y)\<close> whose rounded source
  \<open>(round(x + dx), round(y + dy))\<close> lies in bounds holds the snapshot content of the
  source, and a cell whose source is out of bounds holds what it held before. Below
  strength \<open>0.7\<close> that is the grid \<open>apply\<close> leaves. From \<open>0.7\<close> on the separate glitch
  pass runs on it: a cell then either still holds that content, or holds a glitch glyph
  in \<open>#ff3366\<close> over the background it had.
\<close>

theorem C7_warp_then_glitch:
  assumes c: "coloured g" and b: "inBounds g x y"
    and k: "0 < getStrength (Distortion_value (distortion spec))"
  shows "getCell (warp g spec time seed (getStrength (Distortion_value (distortion spec)))) x y =
           (case warpSource g spec time seed (getStrength (Distortion_value (distortion spec))) x y of
              (sx, sy) \<Rightarrow> if inBounds g sx sy then getCell g sx sy else getCell g x y) \<and>
         (getStrength (Distortion_value (distortion spec)) < 0.7 \<longrightarrow>
            DistortionLayer_apply g spec time seed deltaTime =
              warp g spec time seed (getStrength (Distortion_value (distortion spec)))) \<and>
         (0.7 \<le> getStrength (Distortion_value (distortion spec)) \<longrightarrow>
            (getCell (DistortionLayer_apply g spec time seed deltaTime) x y =
               getCell (warp g spec time seed (getStrength (Distortion_value (distortion spec)))) x y
             \<or> (char (getCell (DistortionLayer_apply g spec time seed deltaTime) x y) \<in> set glitchChars \<and>
                 fg (getCell (DistortionLayer_apply g spec time seed deltaTime) x y) = js ''#ff3366'' \<and>
                 bg (getCell (DistortionLayer_apply g spec time seed deltaTime) x y) =
                   bg (getCell (warp g spec time seed (getStrength (Distortion_value (distortion spec)))) x y))))"
proof -
  let ?k = "getStrength (Distortion_value (distortion spec))"
  obtain sx sy where p: "warpSource g spec time seed ?k x y = (sx, sy)"
    by (cases "warpSource g spec time seed ?k x y")
  from coloured_getCell [OF c, of sx sy]
  have ne: "fg (getCell g sx sy) \<noteq> []" "bg (getCell g sx sy) \<noteq> []" by simp_all
  have 1: "getCell (warp g spec time seed ?k) x y =
      (if inBounds g sx sy then getCell g sx sy else getCell g x y)"
    using warp_cell [OF b, of spec time seed ?k] p setCell_copy [OF b ne] by simp
  have 2: "?k < 0.7 \<Longrightarrow> DistortionLayer_apply g spec time seed deltaTime = warp g spec time seed ?k"
    using k by (rule apply_low)
  have 3: "0.7 \<le> ?k \<Longrightarrow>
      getCell (DistortionLayer_apply g spec time seed deltaTime) x y = getCell (warp g spec time seed ?k) x y
      \<or> (char (getCell (DistortionLayer_apply g spec time seed deltaTime) x y) \<in> set glitchChars \<and>
          fg (getCell (DistortionLayer_apply g spec time seed deltaTime) x y) = js ''#ff3366'' \<and>
          bg (getCell (DistortionLayer_apply g spec time seed deltaTime) x y) =
            bg (getCell (warp g spec time seed ?k) x y))"
    using glitch_cell [of "warp g spec time seed ?k" time seed ?k x y]
    by (simp only: apply_high)
  show ?thesis using 1 2 3 p by simp
qed

text \<open>
  The red glyph at \<open>(2, 1)\<close> is pulled to \<open>(0, 1)\<close>; the source of \<open>(0, 0)\<close> is
  \<open>(2, 2)\<close>, outside the grid, and the cell keeps its content.
\<close>

lemma warpSpec_strength: "getStrength (Distortion_value (distortion warpSpec)) = 1 / 4"
  by (simp add: warpSpec_def sampleSpec_def getStrength_def strengthMap_def)

lemma warpSource_lit:
  "width g = 3 \<Longrightarrow> height g = 2 \<Longrightarrow>
     warpSource g warpSpec 0 0 (1 / 4) 0 1 = (2, 1) \<and>
     warpSource g warpSpec 0 0 (1 / 4) 0 0 = (2, 2)"
  by (simp add: warpSource_def computeOffset_def warpSpec_def sampleSpec_def Let_def round_def)

theorem C7_warp_then_glitch_witness:
  "coloured litGrid \<and> inBounds litGrid 0 1 \<and> inBounds litGrid 0 0 \<and>
   0 < getStrength (Distortion_value (distortion warpSpec)) \<and>
   warpSource litGrid warpSpec 0 0 (getStrength (Distortion_value (distortion warpSpec))) 0 1 = (2, 1) \<and>
   inBounds litGrid 2 1 \<and>
   getCell (DistortionLayer_apply litGrid warpSpec 0 0 0) 0 1 =
     \<lparr>char = js ''A'', fg = js ''#ff0000'', bg = js ''#000000''\<rparr> \<and>
   warpSource litGrid warpSpec 0 0 (getStrength (Distortion_value (distortion warpSpec))) 0 0 = (2, 2) \<and>
   \<not> inBounds litGrid 2 2 \<and>
   getCell (DistortionLayer_apply litGrid warpSpec 0 0 0) 0 0 = getCell litGrid 0 0"
proof -
  have c: "coloured litGrid" by (simp add: coloured_def litGrid_def js_def)
  have b1: "inBounds litGrid 0 1" and b0: "inBounds litGrid 0 0" and b2: "inBounds litGrid 2 1"
    and o: "\<not> inBounds litGrid 2 2"
    by (simp_all add: inBounds_def litGrid_def)
  have k: "0 < getStrength (Distortion_value (distortion warpSpec))"
    by (simp add: warpSpec_strength)
  have s: "warpSource litGrid warpSpec 0 0 (1 / 4) 0 1 = (2, 1)"
      "warpSource litGrid warpSpec 0 0 (1 / 4) 0 0 = (2, 2)"
    using warpSource_lit [of litGrid] by (simp_all add: litGrid_def)
  have v: "getCell litGrid 2 1 = \<lparr>char = js ''A'', fg = js ''#ff0000'', bg = js ''#000000''\<rparr>"
    by (simp add: getCell_def inBounds_def index_def litGrid_def arrayGet_def Let_def)
  from C7_warp_then_glitch [OF c b1 k, of 0 0 0] s(1) b2 v
  have 1: "getCell (DistortionLayer_apply litGrid warpSpec 0 0 0) 0 1 =
     \<lparr>char = js ''A'', fg = js ''#ff0000'', bg = js ''#000000''\<rparr>"
    by (simp add: warpSpec_strength)
  from C7_warp_then_glitch [OF c b0 k, of 0 0 0] s(2) o
  have 2: "getCell (DistortionLayer_apply litGrid warpSpec 0 0 0) 0 0 = getCell litGrid 0 0"
    by (simp add: warpSpec_strength)
  show ?thesis using c b1 b0 k s b2 o 1 2 by (simp add: warpSpec_strength)
qed

text \<open>The distortion layer evaluated on the 1 by 1 grid and on the grid with empty colours.\<close>

lemma glitchSpec_strength: "getStrength (Distortion_value (distortion glitchSpec)) = 3 / 4"
  by (simp add: glitchSpec_def sampleSpec_def getStrength_def strengthMap_def)

lemma warpSource_unit:
  "warpSource unitGrid glitchSpec 0 0 (3 / 4) 0 0 = (- 2, - 2)"
  by (simp add: warpSource_def computeOffset_def glitchSpec_def sampleSpec_def unitGrid_def Let_def round_def)

lemma warp_unit: "warp unitGrid glitchSpec 0 0 (3 / 4) = unitGrid"
  using warpSource_unit
  by (simp add: warp_def warpCell_def Let_def) (simp add: unitGrid_def)

lemma glitch_unit:
  "getCell (applyCharacterGlitch unitGrid 0 0 (3 / 4)) 0 0 =
     \<lparr>char = [0x2588], fg = js ''#ff3366'', bg = js ''#000000''\<rparr>"
proof -
  have i: "inBounds unitGrid 0 0" by (simp add: inBounds_def unitGrid_def)
  have "applyCharacterGlitch unitGrid 0 0 (3 / 4) =
      setCell unitGrid 0 0 [0x2588] (Some (js ''#ff3366'')) None"
    by (simp add: applyCharacterGlitch_def glitchCell_def glitchChars_def listGet_def truthy_def
        Let_def unitGrid_def)
  then show ?thesis
    using i by (simp add: getCell_setCell_same truthy_def js_def)
       (simp add: getCell_def inBounds_def index_def arrayGet_def unitGrid_def js_def Let_def)
qed

lemma fadedGrid_built:
  "Grid_new 3 2 = Inr g0 \<Longrightarrow>
     setCell (clear g0 None (Some []) None) 0 1 (js '' '') (Some (js ''#888888'')) None = fadedGrid"
  by (auto simp add: Grid_new_def clear_def arrayFill_def setCell_def inBounds_def index_def
      arraySet_def truthy_def fadedGrid_def Let_def js_def numeral_eq_Suc)

text \<open>
  Two cases beside the displacement loops. At severity high the glitch pass runs after
  them: the only cell of the 1 by 1 grid, whose source \<open>(-2, -2)\<close> is out of bounds,
  ends as a block glyph. And on a grid left by \<open>clear(" ", "")\<close>, which no frame
  produces, \<open>setCell\<close> keeps the destination's foreground where the source's stored
  foreground is the empty string.
\<close>

lemma glitch_and_empty_colour_cases:
  "0 < getStrength (Distortion_value (distortion glitchSpec)) \<and>
   inBounds unitGrid 0 0 \<and>
   warpSource unitGrid glitchSpec 0 0 (getStrength (Distortion_value (distortion glitchSpec))) 0 0 = (- 2, - 2) \<and>
   \<not> inBounds unitGrid (- 2) (- 2) \<and>
   getCell unitGrid 0 0 = \<lparr>char = js '' '', fg = js ''#888888'', bg = js ''#000000''\<rparr> \<and>
   getCell (DistortionLayer_apply unitGrid glitchSpec 0 0 0) 0 0 =
     \<lparr>char = [0x2588], fg = js ''#ff3366'', bg = js ''#000000''\<rparr> \<and>
   getCell (DistortionLayer_apply unitGrid glitchSpec 0 0 0) 0 0 \<noteq> getCell unitGrid 0 0 \<and>
   0 < getStrength (Distortion_value (distortion warpSpec)) \<and>
   inBounds fadedGrid 0 1 \<and>
   warpSource fadedGrid warpSpec 0 0 (getStrength (Distortion_value (distortion warpSpec))) 0 1 = (2, 1) \<and>
   inBounds fadedGrid 2 1 \<and>
   getCell fadedGrid 2 1 = \<lparr>char = js '' '', fg = [], bg = js ''#000000''\<rparr> \<and>
   getCell (DistortionLayer_apply fadedGrid warpSpec 0 0 0) 0 1 =
     \<lparr>char = js '' '', fg = js ''#888888'', bg = js ''#000000''\<rparr> \<and>
   getCell (DistortionLayer_apply fadedGrid warpSpec 0 0 0) 0 1 \<noteq> getCell fadedGrid 2 1"
proof -
  have a1: "inBounds unitGrid 0 0" and a2: "\<not> inBounds unitGrid (- 2) (- 2)"
    by (simp_all add: inBounds_def unitGrid_def)
  have a3: "getCell unitGrid 0 0 = \<lparr>char = js '' '', fg = js ''#888888'', bg = js ''#000000''\<rparr>"
    by (simp add: getCell_def inBounds_def index_def arrayGet_def unitGrid_def Let_def)
  have a4: "getCell (DistortionLayer_apply unitGrid glitchSpec 0 0 0) 0 0 =
      \<lparr>char = [0x2588], fg = js ''#ff3366'', bg = js ''#000000''\<rparr>"
    by (simp add: apply_high glitchSpec_strength warp_unit glitch_unit)
  have a5: "getCell (DistortionLayer_apply unitGrid glitchSpec 0 0 0) 0 0 \<noteq> getCell unitGrid 0 0"
    unfolding a3 a4 by (simp add: js_def)
  have b1: "inBounds fadedGrid 0 1" and b2: "inBounds fadedGrid 2 1"
    by (simp_all add: inBounds_def fadedGrid_def)
  have b3: "warpSource fadedGrid warpSpec 0 0 (1 / 4) 0 1 = (2, 1)"
    using warpSource_lit [of fadedGrid] by (simp add: fadedGrid_def)
  have b4: "getCell fadedGrid 2 1 = \<lparr>char = js '' '', fg = [], bg = js ''#000000''\<rparr>"
    by (simp add: getCell_def inBounds_def index_def arrayGet_def fadedGrid_def Let_def)
  have b5: "getCell fadedGrid 0 1 = \<lparr>char = js '' '', fg = js ''#888888'', bg = js ''#000000''\<rparr>"
    by (simp add: getCell_def inBounds_def index_def arrayGet_def fadedGrid_def Let_def)
  have "DistortionLayer_apply fadedGrid warpSpec 0 0 0 = warp fadedGrid warpSpec 0 0 (1 / 4)"
    using apply_low [of warpSpec fadedGrid 0 0 0] by (simp add: warpSpec_strength)
  then have b6: "getCell (DistortionLayer_apply fadedGrid warpSpec 0 0 0) 0 1 =
      \<lparr>char = js '' '', fg = js ''#888888'', bg = js ''#000000''\<rparr>"
    using warp_cell [OF b1, of warpSpec 0 0 "1 / 4"] b3 b2 b4 b5
    by (simp add: getCell_setCell_same [OF b1] truthy_def js_def)
  have b7: "getCell (DistortionLayer_apply fadedGrid warpSpec 0 0 0) 0 1 \<noteq> getCell fadedGrid 2 1"
    unfolding b6 b4 by (simp add: js_def)
  show ?thesis
    using a1 a2 a3 a4 a5 b1 b2 b3 b4 b6 b7 warpSource_unit
    by (simp add: glitchSpec_strength warpSpec_strength)
qed

section \<open>AsciiArtLayer: the ambient echoes\<close>

lemma collectArtChars_nonblank: "js '' '' \<notin> set (collectArtChars art)"
  unfolding collectArtChars_def
proof (rule fold_invariant [where P = "\<lambda>acc. js '' '' \<notin> set acc"])
  show "js '' '' \<notin> set []" by simp
next
  fix line and t :: "jsstring list" assume t: "js '' '' \<notin> set t"
  show "js '' '' \<notin> set (fold (\<lambda>ch acc'. if ch \<noteq> js '' '' \<and> ch \<notin> set acc' then acc' @ [ch] else acc')
              (spread line) t)"
    by (rule fold_invariant [where P = "\<lambda>acc. js '' '' \<notin> set acc"]) (use t in auto)
qed

lemma echoPosition_dims:
  "width g' = width g \<Longrightarrow> height g' = height g \<Longrightarrow>
     echoPosition g' spec time seed i = echoPosition g spec time seed i"
  by (simp add: echoPosition_def)

lemma echoStep_dims:
  "width (echoStep g spec artChars time seed palette ox oy aw ah i) = width g \<and>
   height (echoStep g spec artChars time seed palette ox oy aw ah i) = height g"
  by (simp add: echoStep_def Let_def split: prod.splits)

text \<open>One step of the echo loop either leaves a cell as it is, or writes a glyph to a blank
  cell at the candidate position, in bounds and outside the box.\<close>

lemma echoStep_cell:
  assumes nb: "js '' '' \<notin> set artChars"
  shows "getCell (echoStep g spec artChars time seed palette ox oy aw ah i) x y = getCell g x y \<or>
     (echoPosition g spec time seed i = (x, y) \<and> inBounds g x y \<and>
      \<not> (x \<ge> ox \<and> x < ox + aw \<and> y \<ge> oy \<and> y < oy + ah) \<and>
      char (getCell g x y) = js '' '' \<and>
      char (getCell (echoStep g spec artChars time seed palette ox oy aw ah i) x y) \<noteq> js '' '')"
proof -
  obtain ex ey where p: "echoPosition g spec time seed i = (ex, ey)"
    by (cases "echoPosition g spec time seed i")
  let ?ch = "case listGet artChars
                 (\<bar>hashInt (seed + real_of_int i * 31) (real_of_int i)\<bar> mod int (length artChars)) of
               Some c \<Rightarrow> c | None \<Rightarrow> [0xB7]"
  let ?color = "dimColor (case listGet palette (i mod int (length palette)) of
                           Some c \<Rightarrow> c | None \<Rightarrow> js ''#555555'') 0.35"
  have ch: "?ch \<noteq> js '' ''"
    using nb by (auto simp add: js_def split: option.splits dest: listGet_mem)
  show ?thesis
  proof (cases "inBounds g ex ey \<and> \<not> (ex \<ge> ox \<and> ex < ox + aw \<and> ey \<ge> oy \<and> ey < oy + ah)
                \<and> char (getCell g ex ey) = js '' ''")
    case False
    then have "echoStep g spec artChars time seed palette ox oy aw ah i = g"
      unfolding echoStep_def p by (auto simp add: Let_def inBounds_def)
    then show ?thesis by simp
  next
    case True
    then have e: "echoStep g spec artChars time seed palette ox oy aw ah i =
        setCell g ex ey ?ch (Some ?color) None"
      unfolding echoStep_def p by (auto simp add: Let_def inBounds_def)
    show ?thesis
    proof (cases "(x, y) = (ex, ey)")
      case False
      then show ?thesis unfolding e by (simp add: getCell_setCell_other)
    next
      case xy: True
      then have "x = ex" "y = ey" by simp_all
      with True ch p show ?thesis unfolding e by (simp add: getCell_setCell_same)
    qed
  qed
qed

lemma echoLoop_dims:
  "width (fold (\<lambda>i g'. echoStep g' spec artChars time seed palette ox oy aw ah i) idxs g) = width g \<and>
   height (fold (\<lambda>i g'. echoStep g' spec artChars time seed palette ox oy aw ah i) idxs g) = height g"
  by (rule fold_invariant [where P = "\<lambda>t. width t = width g \<and> height t = height g"])
     (simp_all add: echoStep_dims)

lemma echoLoop_cell:
  assumes nb: "js '' '' \<notin> set artChars"
  shows "width g = w \<Longrightarrow> height g = h \<Longrightarrow> width g0 = w \<Longrightarrow> height g0 = h \<Longrightarrow>
     getCell (fold (\<lambda>i g'. echoStep g' spec artChars time seed palette ox oy aw ah i) idxs g) x y
       \<noteq> getCell g x y \<Longrightarrow>
     (x, y) \<in> (\<lambda>i. echoPosition g0 spec time seed i) ` set idxs \<and>
     inBounds g0 x y \<and>
     \<not> (x \<ge> ox \<and> x < ox + aw \<and> y \<ge> oy \<and> y < oy + ah) \<and>
     char (getCell g x y) = js '' '' \<and>
     char (getCell (fold (\<lambda>i g'. echoStep g' spec artChars time seed palette ox oy aw ah i) idxs g) x y)
       \<noteq> js '' ''"
proof (induction idxs arbitrary: g)
  case Nil
  then show ?case by simp
next
  case (Cons i idxs)
  let ?step = "\<lambda>i g'. echoStep g' spec artChars time seed palette ox oy aw ah i"
  let ?g1 = "?step i g"
  have d1: "width ?g1 = w" "height ?g1 = h"
    using echoStep_dims [of g spec artChars time seed palette ox oy aw ah i] Cons.prems by simp_all
  have pos: "echoPosition g spec time seed i = echoPosition g0 spec time seed i"
    using Cons.prems by (simp add: echoPosition_dims)
  have inb: "inBounds g x y = inBounds g0 x y"
    using Cons.prems by (simp add: inBounds_def)
  note st = echoStep_cell [OF nb, of g spec time seed palette ox oy aw ah i x y]
  show ?case
  proof (cases "getCell (fold ?step idxs ?g1) x y = getCell ?g1 x y")
    case True
    with Cons.prems(5) have ne: "getCell ?g1 x y \<noteq> getCell g x y" by simp
    with st have "echoPosition g spec time seed i = (x, y)" "inBounds g x y"
      "\<not> (x \<ge> ox \<and> x < ox + aw \<and> y \<ge> oy \<and> y < oy + ah)"
      "char (getCell g x y) = js '' ''" "char (getCell ?g1 x y) \<noteq> js '' ''"
      by auto
    with True pos inb show ?thesis by (auto simp add: image_iff)
  next
    case False
    from Cons.IH [OF d1 Cons.prems(3,4) False]
    have ih: "(x, y) \<in> (\<lambda>i. echoPosition g0 spec time seed i) ` set idxs"
      "inBounds g0 x y" "\<not> (x \<ge> ox \<and> x < ox + aw \<and> y \<ge> oy \<and> y < oy + ah)"
      "char (getCell ?g1 x y) = js '' ''"
      "char (getCell (fold ?step idxs ?g1) x y) \<noteq> js '' ''"
      by simp_all
    from st ih(4) have "getCell ?g1 x y = getCell g x y" by auto
    with ih show ?thesis by auto
  qed
qed

lemma nonblank_kept:
  assumes nb: "js '' '' \<notin> set artChars" and c: "char (getCell g x y) \<noteq> js '' ''"
  shows "getCell (fold (\<lambda>i g'. echoStep g' spec artChars time seed palette ox oy aw ah i) idxs g) x y
           = getCell g x y"
proof (rule fold_invariant [where P = "\<lambda>t. getCell t x y = getCell g x y"])
  show "getCell g x y = getCell g x y" by simp
next
  fix i and t :: Grid assume t: "getCell t x y = getCell g x y"
  from echoStep_cell [OF nb, of t spec time seed palette ox oy aw ah i x y] t c
  show "getCell (echoStep t spec artChars time seed palette ox oy aw ah i) x y = getCell g x y"
    by auto
qed

lemma echoes_changed_subset:
  "changedCells g (drawAmbientEchoes g spec art time seed palette ox oy aw ah) \<subseteq>
     (\<lambda>i. echoPosition g spec time seed i) ` set [0..\<lfloor>8 + density spec * 20\<rfloor> - 1]"
proof (cases "length (collectArtChars art) = 0")
  case True
  then show ?thesis by (simp add: drawAmbientEchoes_def changedCells_def)
next
  case False
  show ?thesis
  proof
    fix p assume "p \<in> changedCells g (drawAmbientEchoes g spec art time seed palette ox oy aw ah)"
    then obtain x y where p: "p = (x, y)"
      and ne: "getCell (drawAmbientEchoes g spec art time seed palette ox oy aw ah) x y \<noteq> getCell g x y"
      by (auto simp add: changedCells_def)
    from ne False have "getCell (fold (\<lambda>i g'. echoStep g' spec (collectArtChars art) time seed palette
                                  ox oy aw ah i) [0..\<lfloor>8 + density spec * 20\<rfloor> - 1] g) x y \<noteq> getCell g x y"
      by (simp add: drawAmbientEchoes_def Let_def)
    from echoLoop_cell [OF collectArtChars_nonblank refl refl refl refl this] p
    show "p \<in> (\<lambda>i. echoPosition g spec time seed i) ` set [0..\<lfloor>8 + density spec * 20\<rfloor> - 1]"
      by simp
  qed
qed

lemma echoes_changed_cell:
  assumes "(x, y) \<in> changedCells g (drawAmbientEchoes g spec art time seed palette ox oy aw ah)"
  shows "inBounds g x y \<and> \<not> (x \<ge> ox \<and> x < ox + aw \<and> y \<ge> oy \<and> y < oy + ah) \<and>
         char (getCell g x y) = js '' '' \<and>
         char (getCell (drawAmbientEchoes g spec art time seed palette ox oy aw ah) x y) \<noteq> js '' ''"
proof (cases "length (collectArtChars art) = 0")
  case True
  with assms show ?thesis by (simp add: drawAmbientEchoes_def changedCells_def)
next
  case False
  from assms False have "getCell (fold (\<lambda>i g'. echoStep g' spec (collectArtChars art) time seed palette
                                  ox oy aw ah i) [0..\<lfloor>8 + density spec * 20\<rfloor> - 1] g) x y \<noteq> getCell g x y"
    by (simp add: drawAmbientEchoes_def Let_def changedCells_def)
  from echoLoop_cell [OF collectArtChars_nonblank refl refl refl refl this] False
  show ?thesis by (simp add: drawAmbientEchoes_def Let_def)
qed

text \<open>
  Claim C8. The echo pass changes at most \<open>floor(8 + density * 20)\<close> cells, hence at
  most \<open>8 + density * 20\<close> for a density that is not negative. Every cell it changes
  was blank before, lies in the grid and outside the centred box of the art, and holds
  a glyph afterwards. A write of the pass always puts a glyph on a blank cell, so the
  cells written are the cells changed; a candidate that is skipped is not retried.
\<close>

theorem C8_echo_bound:
  "finite (changedCells g (drawAmbientEchoes g spec art time seed palette ox oy aw ah)) \<and>
   card (changedCells g (drawAmbientEchoes g spec art time seed palette ox oy aw ah))
     \<le> nat \<lfloor>8 + density spec * 20\<rfloor> \<and>
   (0 \<le> density spec \<longrightarrow>
      real (card (changedCells g (drawAmbientEchoes g spec art time seed palette ox oy aw ah)))
        \<le> 8 + density spec * 20) \<and>
   (\<forall>(x, y) \<in> changedCells g (drawAmbientEchoes g spec art time seed palette ox oy aw ah).
      char (getCell g x y) = js '' '' \<and>
      inBounds g x y \<and>
      \<not> (x \<ge> ox \<and> x < ox + aw \<and> y \<ge> oy \<and> y < oy + ah) \<and>
      char (getCell (drawAmbientEchoes g spec art time seed palette ox oy aw ah) x y) \<noteq> js '' '')"
proof -
  let ?C = "changedCells g (drawAmbientEchoes g spec art time seed palette ox oy aw ah)"
  let ?I = "[0..\<lfloor>8 + density spec * 20\<rfloor> - 1]"
  let ?P = "(\<lambda>i. echoPosition g spec time seed i) ` set ?I"
  have sub: "?C \<subseteq> ?P" by (rule echoes_changed_subset)
  have fin: "finite ?C" using sub by (rule finite_subset) simp
  have "card ?C \<le> card ?P" using sub by (intro card_mono) simp_all
  also have "\<dots> \<le> card (set ?I)" by (rule card_image_le) simp
  also have "\<dots> \<le> length ?I" by (rule card_length)
  also have "\<dots> = nat \<lfloor>8 + density spec * 20\<rfloor>" by simp
  finally have c: "card ?C \<le> nat \<lfloor>8 + density spec * 20\<rfloor>" .
  have r: "0 \<le> density spec \<Longrightarrow> real (card ?C) \<le> 8 + density spec * 20"
  proof -
    assume d: "0 \<le> density spec"
    then have "0 \<le> \<lfloor>8 + density spec * 20\<rfloor>" by simp
    then have "real (nat \<lfloor>8 + density spec * 20\<rfloor>) = real_of_int \<lfloor>8 + density spec * 20\<rfloor>" by simp
    also have "\<dots> \<le> 8 + density spec * 20" by (rule of_int_floor_le)
    finally show ?thesis using c by (simp add: le_trans [OF of_nat_mono])
  qed
  show ?thesis using fin c r echoes_changed_cell [of _ _ g spec art time seed palette ox oy aw ah]
    by auto
qed

text \<open>
  On the 1 by 1 grid with a static scene every candidate is the cell \<open>(0, 0)\<close>: the first
  echo is written there and the other seven are dropped.
\<close>

lemma seededFloat_range:
  assumes "lo \<le> hi"
  shows "lo \<le> seededFloat s lo hi \<and> seededFloat s lo hi \<le> hi"
proof -
  define n where "n = sin (s * 127.1 + 311.7) * 43758.5453"
  define frac where "frac = n - real_of_int \<lfloor>n\<rfloor>"
  have f: "0 \<le> frac" "frac \<le> 1" unfolding frac_def by linarith+
  have e: "seededFloat s lo hi = lo + frac * (hi - lo)"
    by (simp add: seededFloat_def Let_def n_def frac_def)
  have "0 \<le> frac * (hi - lo)" using f assms by simp
  moreover have "frac * (hi - lo) \<le> 1 * (hi - lo)"
    using f assms by (intro mult_right_mono) simp_all
  ultimately show ?thesis unfolding e by simp
qed

lemma floor_half_plus:
  fixes c d :: real
  assumes "\<bar>c\<bar> \<le> 1" "0 \<le> d" "d \<le> 0.45"
  shows "\<lfloor>1 / 2 + c * d\<rfloor> = 0"
proof -
  have "\<bar>c * d\<bar> \<le> 1 * d" unfolding abs_mult using assms by (intro mult_mono) simp_all
  then have "\<bar>c * d\<bar> \<le> 0.45" using assms by simp
  then have "0 \<le> 1 / 2 + c * d" "1 / 2 + c * d < 1" by (simp_all add: abs_le_iff)
  then show ?thesis by (simp add: floor_eq_iff)
qed

lemma echoPosition_unit:
  assumes "width g = 1" "height g = 1" "motion spec = Motion_Static"
  shows "echoPosition g spec time seed i = (0, 0)"
proof -
  define d where "d = seededFloat (seed + real_of_int i * 137 + 500) 0.3 1.0 * 0.45"
  define a where "a = seededFloat (seed + real_of_int i * 73) 0 (pi * 2)"
  from seededFloat_range [of "0.3" "1.0" "seed + real_of_int i * 137 + 500"]
  have d: "0 \<le> d" "d \<le> 0.45" unfolding d_def by simp_all
  have x: "\<lfloor>1 / 2 + cos (a + time * 0.1) * d\<rfloor> = 0"
    by (rule floor_half_plus) (use d in simp_all)
  have d6: "0 \<le> d * 0.6" "d * 0.6 \<le> 0.45" using d by simp_all
  have y: "\<lfloor>1 / 2 + sin (a + time * 0.08) * (d * 0.6)\<rfloor> = 0"
    by (rule floor_half_plus) (use d6 in simp_all)
  show ?thesis
    using x y assms
    by (simp add: echoPosition_def getMotionOffset_def Let_def d_def a_def mult.assoc)
qed

lemma collect_sample: "collectArtChars [js ''x''] = [js ''x'']"
  by (simp add: collectArtChars_def js_def)

lemma dim_sample: "dimColor (js ''#ffffff'') (7 / 20) = js ''#595959''"
  by (simp add: dimColor_def js_def slice_def parseHex_def isWhiteSpace_def hexDigit_def
      toString16_def padStart2_def digitChar_def hexDigits.simps)

lemma echoStep_unit_blank:
  assumes "width g = 1" "height g = 1" "char (getCell g 0 0) = js '' ''"
  shows "echoStep g sampleSpec [js ''x''] time seed [js ''#ffffff''] 5 5 1 1 0 =
           setCell g 0 0 (js ''x'') (Some (js ''#595959'')) None"
proof -
  have p: "echoPosition g sampleSpec time seed 0 = (0, 0)"
    by (rule echoPosition_unit) (use assms in \<open>simp_all add: sampleSpec_def\<close>)
  show ?thesis
    unfolding echoStep_def p using assms
    by (simp add: Let_def listGet_def dim_sample)
qed

lemma echoes_unit:
  "getCell (drawAmbientEchoes unitGrid sampleSpec [js ''x''] time seed [js ''#ffffff''] 5 5 1 1) 0 0 =
     \<lparr>char = js ''x'', fg = js ''#595959'', bg = js ''#000000''\<rparr>"
proof -
  let ?step = "\<lambda>i g'. echoStep g' sampleSpec [js ''x''] time seed [js ''#ffffff''] 5 5 1 1 i"
  have b: "inBounds unitGrid 0 0" by (simp add: inBounds_def unitGrid_def)
  have c0: "getCell unitGrid 0 0 = \<lparr>char = js '' '', fg = js ''#888888'', bg = js ''#000000''\<rparr>"
    by (simp add: getCell_def inBounds_def index_def arrayGet_def unitGrid_def Let_def)
  have s0: "?step 0 unitGrid = setCell unitGrid 0 0 (js ''x'') (Some (js ''#595959'')) None"
    by (rule echoStep_unit_blank) (simp_all add: c0, simp_all add: unitGrid_def)
  have c1: "getCell (?step 0 unitGrid) 0 0 = \<lparr>char = js ''x'', fg = js ''#595959'', bg = js ''#000000''\<rparr>"
    unfolding s0 using b c0 by (simp add: getCell_setCell_same truthy_def js_def)
  have nb: "js '' '' \<notin> set [js ''x'']" by (simp add: js_def)
  have n1: "char (getCell (?step 0 unitGrid) 0 0) \<noteq> js '' ''" unfolding c1 by (simp add: js_def)
  have cnt: "density sampleSpec = 0" by (simp add: sampleSpec_def)
  have l: "[0..(7::int)] = 0 # [1..7]" by (simp add: upto_rec1)
  have "drawAmbientEchoes unitGrid sampleSpec [js ''x''] time seed [js ''#ffffff''] 5 5 1 1 =
      fold ?step [1..7] (?step 0 unitGrid)"
    by (simp add: drawAmbientEchoes_def collect_sample Let_def cnt l del: upto_rec_numeral)
  then show ?thesis
    using nonblank_kept [OF nb n1, of sampleSpec time seed "[js ''#ffffff'']" 5 5 1 1 "[1..7]"] c1
    by simp
qed

text \<open>
  The sample scene on the blank 1 by 1 grid, the box of the art placed off the grid:
  eight echoes are requested and one cell is written.
\<close>

theorem C8_echo_bound_witness:
  "0 \<le> density sampleSpec \<and>
   \<lfloor>8 + density sampleSpec * 20\<rfloor> = 8 \<and>
   (0, 0) \<in> changedCells unitGrid
       (drawAmbientEchoes unitGrid sampleSpec [js ''x''] 3 42 [js ''#ffffff''] 5 5 1 1) \<and>
   char (getCell unitGrid 0 0) = js '' '' \<and>
   inBounds unitGrid 0 0 \<and>
   char (getCell (drawAmbientEchoes unitGrid sampleSpec [js ''x''] 3 42 [js ''#ffffff''] 5 5 1 1) 0 0)
     = js ''x'' \<and>
   card (changedCells unitGrid
       (drawAmbientEchoes unitGrid sampleSpec [js ''x''] 3 42 [js ''#ffffff''] 5 5 1 1)) = 1 \<and>
   real (card (changedCells unitGrid
       (drawAmbientEchoes unitGrid sampleSpec [js ''x''] 3 42 [js ''#ffffff''] 5 5 1 1))) \<le> 8"
proof -
  let ?G = "drawAmbientEchoes unitGrid sampleSpec [js ''x''] 3 42 [js ''#ffffff''] 5 5 1 1"
  have d: "0 \<le> density sampleSpec" and d0: "density sampleSpec = 0" by (simp_all add: sampleSpec_def)
  have c0: "getCell unitGrid 0 0 = \<lparr>char = js '' '', fg = js ''#888888'', bg = js ''#000000''\<rparr>"
    by (simp add: getCell_def inBounds_def index_def arrayGet_def unitGrid_def Let_def)
  have m: "(0, 0) \<in> changedCells unitGrid ?G"
    unfolding changedCells_def using echoes_unit [of 3 42] c0 by (simp add: js_def)
  note t = C8_echo_bound [of unitGrid sampleSpec "[js ''x'']" 3 42 "[js ''#ffffff'']" 5 5 1 1]
  from t d have r: "real (card (changedCells unitGrid ?G)) \<le> 8 + density sampleSpec * 20" by blast
  from t m have "char (getCell unitGrid 0 0) = js '' '' \<and> inBounds unitGrid 0 0" by blast
  moreover have only: "changedCells unitGrid ?G = {(0, 0)}"
  proof
    show "{(0, 0)} \<subseteq> changedCells unitGrid ?G" using m by simp
    show "changedCells unitGrid ?G \<subseteq> {(0, 0)}"
    proof
      fix p assume p: "p \<in> changedCells unitGrid ?G"
      obtain x y where xy: "p = (x, y)" by (cases p)
      from t p xy have "inBounds unitGrid x y" by blast
      then have "x = 0 \<and> y = 0" by (simp add: inBounds_def unitGrid_def)
      with xy show "p \<in> {(0, 0)}" by simp
    qed
  qed
  ultimately show ?thesis using d m r by (simp add: echoes_unit d0)
qed

end
